theory Spec2Isabelle
  imports Complex_Main "HOL-Library.Word"
begin

section \<open>Python values used by \<^verbatim>\<open>tools/build_images.py\<close>\<close>

text \<open>
  A Python \<^verbatim>\<open>str\<close> is a list of code points; the model keeps the code points below 256,
  one \<^typ>\<open>char\<close> each (so the accented letter of the final report is the single character 237).
  \<^verbatim>\<open>bytes\<close> is a list of octets. An exception is the name of its class and the text
  that \<^verbatim>\<open>str(exc)\<close> gives; every exception of the model is an instance of a subclass of
  \<^verbatim>\<open>Exception\<close>, as are the ones that \<^verbatim>\<open>urllib\<close>, \<^verbatim>\<open>pathlib\<close>, Pillow and the
  arithmetic of the script raise.
\<close>

type_synonym bytes = "8 word list"

datatype exn = Exn (exn_class: string) (exn_str: string)

subsection \<open>\<^verbatim>\<open>str.split\<close>, \<^verbatim>\<open>str.lower\<close>, \<^verbatim>\<open>str(int)\<close>\<close>

text \<open>\<^verbatim>\<open>s.split(c)\<close> for a separator of one character: never empty, the pieces between
  the occurrences of the separator, in order.\<close>

fun str_split :: "char \<Rightarrow> string \<Rightarrow> string list" where
  "str_split c [] = [] # []"
| "str_split c (x # xs) =
     (if x = c then [] # str_split c xs
      else (case str_split c xs of
              [] \<Rightarrow> [x] # []
            | y # ys \<Rightarrow> (x # y) # ys))"

text \<open>\<^verbatim>\<open>str.lower\<close> on code points below 256: the ASCII capitals and the Latin-1
  capitals 192 to 222 (without the multiplication sign 215) move up by 32.\<close>

definition lower_char :: "char \<Rightarrow> char" where
  "lower_char c =
     (let n = (of_char c :: nat)
      in if (65 \<le> n \<and> n \<le> 90) \<or> (192 \<le> n \<and> n \<le> 222 \<and> n \<noteq> 215)
         then char_of (n + 32) else c)"

definition lower :: "string \<Rightarrow> string" where
  "lower s = map lower_char s"

definition digit_char :: "nat \<Rightarrow> char" where
  "digit_char d = ''0123456789'' ! d"

function str_nat :: "nat \<Rightarrow> string" where
  "str_nat n = (if n < 10 then [digit_char n] else str_nat (n div 10) @ [digit_char (n mod 10)])"
  by pat_completeness auto
termination
  by (relation "measure id") auto

declare str_nat.simps [simp del]

definition str_int :: "int \<Rightarrow> string" where
  "str_int i = (if i < 0 then CHR ''-'' # str_nat (nat (- i)) else str_nat (nat i))"

subsection \<open>\<^verbatim>\<open>pathlib\<close> paths\<close>

text \<open>
  A POSIX path is its anchor and its components. The anchor is empty for a relative path,
  one slash for an absolute one, and two slashes when the string starts with exactly two
  slashes, a root that \<^verbatim>\<open>pathlib\<close> keeps apart. Parsing a string drops empty components
  and the components \<^verbatim>\<open>.\<close> and keeps \<^verbatim>\<open>..\<close>. \<^verbatim>\<open>p / s\<close> parses \<^verbatim>\<open>s\<close> and appends
  it, or replaces \<^verbatim>\<open>p\<close> when \<^verbatim>\<open>s\<close> has an anchor.
\<close>

datatype path = Path (anchor: string) (parts: "string list")

fun path_anchor :: "string \<Rightarrow> string" where
  "path_anchor (a # b # c # s) =
     (if a = CHR ''/'' then (if b = CHR ''/'' \<and> c \<noteq> CHR ''/'' then ''//'' else ''/'') else [])"
| "path_anchor (a # b # []) =
     (if a = CHR ''/'' then (if b = CHR ''/'' then ''//'' else ''/'') else [])"
| "path_anchor (a # []) = (if a = CHR ''/'' then ''/'' else [])"
| "path_anchor [] = []"

definition path_components :: "string \<Rightarrow> string list" where
  "path_components s = filter (\<lambda>c. c \<noteq> [] \<and> c \<noteq> ''.'') (str_split (CHR ''/'') s)"

definition path_join :: "path \<Rightarrow> string \<Rightarrow> path" where
  "path_join p s =
     (if path_anchor s \<noteq> [] then Path (path_anchor s) (path_components s)
      else Path (anchor p) (parts p @ path_components s))"

definition path_parent :: "path \<Rightarrow> path" where
  "path_parent p = Path (anchor p) (butlast (parts p))"

fun join_with :: "string \<Rightarrow> string list \<Rightarrow> string" where
  "join_with sep [] = []"
| "join_with sep [x] = x"
| "join_with sep (x # y # ys) = x @ sep @ join_with sep (y # ys)"

text \<open>\<^verbatim>\<open>str(p)\<close>.\<close>

definition path_str :: "path \<Rightarrow> string" where
  "path_str p =
     (if anchor p \<noteq> [] then anchor p @ join_with ''/'' (parts p)
      else if parts p = [] then ''.'' else join_with ''/'' (parts p))"

text \<open>\<^verbatim>\<open>p.relative_to(other)\<close>: the components of \<^verbatim>\<open>p\<close> below \<^verbatim>\<open>other\<close>, or
  \<^verbatim>\<open>ValueError\<close> when \<^verbatim>\<open>other\<close> is not a prefix of \<^verbatim>\<open>p\<close> with the same anchor.\<close>

definition relative_to :: "path \<Rightarrow> path \<Rightarrow> exn + path" where
  "relative_to p other =
     (if anchor p = anchor other \<and> take (length (parts other)) (parts p) = parts other
      then Inr (Path [] (drop (length (parts other)) (parts p)))
      else Inl (Exn ''ValueError''
             ([CHR 39] @ path_str p @ [CHR 39] @ '' is not in the subpath of ''
               @ [CHR 39] @ path_str other @ [CHR 39])))"

subsection \<open>Floats: \<^verbatim>\<open>int / int\<close>, \<^verbatim>\<open>int * float\<close>, \<^verbatim>\<open>round\<close>\<close>

text \<open>
  A Python float is an IEEE 754 binary64 number. \<open>Finite m e\<close> is the number
  \<open>m * 2 ^ e\<close>; every operation below produces a value with \<open>\<bar>m\<bar> \<le> 2 ^ 53\<close> and
  \<open>e \<ge> - 1074\<close>, rounded to nearest with ties to the even significand. NaN does not
  occur in the script's arithmetic.
\<close>

datatype pyfloat = Finite int int | PosInf | NegInf

function bit_length :: "int \<Rightarrow> int" where
  "bit_length n = (if n \<le> 0 then 0 else 1 + bit_length (n div 2))"
  by pat_completeness auto
termination
  by (relation "measure nat") auto

declare bit_length.simps [simp del]

text \<open>\<open>\<lfloor>log\<^sub>2 (a / b)\<rfloor>\<close> for positive \<open>a\<close> and \<open>b\<close>.\<close>

definition floor_log2_ratio :: "int \<Rightarrow> int \<Rightarrow> int" where
  "floor_log2_ratio a b =
     (let d = bit_length a - bit_length b
      in if (if 0 \<le> d then b * 2 ^ nat d \<le> a else b \<le> a * 2 ^ nat (- d)) then d else d - 1)"

text \<open>The integer nearest to \<open>n / d\<close> for \<open>d > 0\<close>, a tie going to the even one.\<close>

definition round_half_even :: "int \<Rightarrow> int \<Rightarrow> int" where
  "round_half_even n d =
     (let f = n div d; r = n mod d
      in if 2 * r < d then f
         else if d < 2 * r then f + 1
         else if even f then f else f + 1)"

text \<open>The binary64 number nearest to \<open>p / q\<close> for \<open>q > 0\<close>; an infinity when the rounded
  value does not fit.\<close>

definition float_of_ratio :: "int \<Rightarrow> int \<Rightarrow> pyfloat" where
  "float_of_ratio p q =
     (if p = 0 then Finite 0 0
      else
        let a = \<bar>p\<bar>;
            e = max (floor_log2_ratio a q - 52) (- 1074);
            m = (if 0 \<le> e then round_half_even a (q * 2 ^ nat e)
                 else round_half_even (a * 2 ^ nat (- e)) q)
        in if 971 < e \<or> (e = 971 \<and> 2 ^ 53 \<le> m)
           then (if p < 0 then NegInf else PosInf)
           else Finite (if p < 0 then - m else m) e)"

text \<open>\<^verbatim>\<open>a / b\<close> on two ints: the correctly rounded quotient.\<close>

definition int_truediv :: "int \<Rightarrow> int \<Rightarrow> exn + pyfloat" where
  "int_truediv a b =
     (if b = 0 then Inl (Exn ''ZeroDivisionError'' ''division by zero'')
      else (case (if b < 0 then float_of_ratio (- a) (- b) else float_of_ratio a b) of
              Finite m e \<Rightarrow> Inr (Finite m e)
            | _ \<Rightarrow> Inl (Exn ''OverflowError'' ''integer division result too large for a float'')))"

text \<open>\<^verbatim>\<open>float(n)\<close>, the conversion that \<^verbatim>\<open>n * x\<close> applies to its int operand.\<close>

definition float_of_int :: "int \<Rightarrow> exn + pyfloat" where
  "float_of_int n =
     (case float_of_ratio n 1 of
        Finite m e \<Rightarrow> Inr (Finite m e)
      | _ \<Rightarrow> Inl (Exn ''OverflowError'' ''int too large to convert to float''))"

definition float_mul :: "pyfloat \<Rightarrow> pyfloat \<Rightarrow> pyfloat" where
  "float_mul x y =
     (case (x, y) of
        (Finite m e, Finite n f) \<Rightarrow>
          (if 0 \<le> e + f then float_of_ratio (m * n * 2 ^ nat (e + f)) 1
           else float_of_ratio (m * n) (2 ^ nat (- (e + f))))
      | _ \<Rightarrow> (if (x = NegInf) = (y = NegInf) then PosInf else NegInf))"

definition int_mul_float :: "int \<Rightarrow> pyfloat \<Rightarrow> exn + pyfloat" where
  "int_mul_float n x =
     (case float_of_int n of Inl err \<Rightarrow> Inl err | Inr y \<Rightarrow> Inr (float_mul y x))"

text \<open>\<^verbatim>\<open>round(x)\<close> with one argument: an int, ties to even.\<close>

definition py_round :: "pyfloat \<Rightarrow> exn + int" where
  "py_round x =
     (case x of
        Finite m e \<Rightarrow> Inr (if 0 \<le> e then m * 2 ^ nat e else round_half_even m (2 ^ nat (- e)))
      | _ \<Rightarrow> Inl (Exn ''OverflowError'' ''cannot convert float infinity to integer''))"


section \<open>The world of the script\<close>

text \<open>
  The state is the file system (the content of each file, the directories made) and the two
  output streams, a list of printed lines each. What the script cannot decide is a
  parameter: the project root (\<^verbatim>\<open>ROOT\<close>, computed from the script's location), the
  network, the failures of the file system (which may depend on its present state), and
  Pillow's decoder, mode table, converter, resampler and WebP encoder.
\<close>

record world =
  files :: "path \<rightharpoonup> bytes"
  dirs :: "path set"
  stdout :: "string list"
  stderr :: "string list"

text \<open>A Pillow image: its size, its mode and its pixel data.\<close>

record image =
  width :: int
  height :: int
  mode :: string
  raster :: bytes

record env =
  ROOT :: path
  urlopen :: "string \<Rightarrow> (string \<times> string) list \<Rightarrow> nat \<Rightarrow> exn + bytes"
  mkdir_fault :: "world \<Rightarrow> path \<Rightarrow> exn option"
  write_fault :: "world \<Rightarrow> path \<Rightarrow> exn option"
  Image_open :: "bytes \<Rightarrow> exn + image"
  Image_load :: "image \<Rightarrow> exn + image"
  mode_bands :: "string \<Rightarrow> string list"
  convert_raster :: "image \<Rightarrow> string \<Rightarrow> exn + bytes"
  lanczos_raster :: "image \<Rightarrow> int \<Rightarrow> int \<Rightarrow> exn + bytes"
  webp_encode :: "image \<Rightarrow> int \<Rightarrow> exn + bytes"

definition print_out :: "string \<Rightarrow> world \<Rightarrow> world" where
  "print_out s w = w\<lparr>stdout := stdout w @ [s]\<rparr>"

definition print_err :: "string \<Rightarrow> world \<Rightarrow> world" where
  "print_err s w = w\<lparr>stderr := stderr w @ [s]\<rparr>"

text \<open>\<^verbatim>\<open>p.mkdir(parents=True, exist_ok=True)\<close>: the path and its ancestors are
  directories afterwards, unless the file system refuses.\<close>

fun list_prefixes :: "'a list \<Rightarrow> 'a list list" where
  "list_prefixes [] = [] # []"
| "list_prefixes (x # xs) = [] # map ((#) x) (list_prefixes xs)"

definition path_ancestors :: "path \<Rightarrow> path list" where
  "path_ancestors p = map (Path (anchor p)) (list_prefixes (parts p))"

definition make_dirs :: "path \<Rightarrow> world \<Rightarrow> world" where
  "make_dirs p w = w\<lparr>dirs := dirs w \<union> set (path_ancestors p)\<rparr>"

definition mkdir_parents :: "env \<Rightarrow> path \<Rightarrow> world \<Rightarrow> (exn + unit) \<times> world" where
  "mkdir_parents E p w =
     (case mkdir_fault E w p of
        Some err \<Rightarrow> (Inl err, w)
      | None \<Rightarrow> (Inr (), make_dirs p w))"

text \<open>\<^verbatim>\<open>p.write_bytes(data)\<close>: the file holds exactly \<^verbatim>\<open>data\<close> afterwards, whatever it
  held before, unless the file system refuses.\<close>

definition write_bytes :: "env \<Rightarrow> path \<Rightarrow> bytes \<Rightarrow> world \<Rightarrow> (exn + unit) \<times> world" where
  "write_bytes E p data w =
     (case write_fault E w p of
        Some err \<Rightarrow> (Inl err, w)
      | None \<Rightarrow> (Inr (), w\<lparr>files := (files w)(p \<mapsto> data)\<rparr>))"

text \<open>\<^verbatim>\<open>im.getbands()\<close>, \<^verbatim>\<open>im.convert(m)\<close> and
  \<^verbatim>\<open>im.resize((w, h), resample=LANCZOS)\<close>: the result has the mode, or the size, asked
  for; Pillow refuses a size below one pixel.\<close>

definition getbands :: "env \<Rightarrow> image \<Rightarrow> string list" where
  "getbands E im = mode_bands E (mode im)"

definition convert :: "env \<Rightarrow> image \<Rightarrow> string \<Rightarrow> exn + image" where
  "convert E im m =
     (case convert_raster E im m of
        Inl err \<Rightarrow> Inl err
      | Inr px \<Rightarrow> Inr (im\<lparr>mode := m, raster := px\<rparr>))"

definition resize :: "env \<Rightarrow> image \<Rightarrow> int \<Rightarrow> int \<Rightarrow> exn + image" where
  "resize E im w h =
     (if w < 1 \<or> h < 1 then Inl (Exn ''ValueError'' ''height and width must be > 0'')
      else (case lanczos_raster E im w h of
              Inl err \<Rightarrow> Inl err
            | Inr px \<Rightarrow> Inr (im\<lparr>width := w, height := h, raster := px\<rparr>)))"

text \<open>\<^verbatim>\<open>img.save(out_path, format="WEBP", quality=q, method=6, optimize=True)\<close>: the
  file is opened for writing, the image is encoded in memory and written. When the encoder
  fails, a file that was there is left truncated and a file that was not is removed.\<close>

definition save_webp :: "env \<Rightarrow> image \<Rightarrow> path \<Rightarrow> int \<Rightarrow> world \<Rightarrow> (exn + unit) \<times> world" where
  "save_webp E img p q w =
     (case write_fault E w p of
        Some err \<Rightarrow> (Inl err, w)
      | None \<Rightarrow>
          (case webp_encode E img q of
             Inl err \<Rightarrow>
               (Inl err, w\<lparr>files := (files w)(p := (if p \<in> dom (files w) then Some [] else None))\<rparr>)
           | Inr data \<Rightarrow> (Inr (), w\<lparr>files := (files w)(p \<mapsto> data)\<rparr>)))"

section \<open>The script\<close>

record ImageJob =
  url :: string
  out_dir :: path
  base_name :: string
  widths :: "int list"
  format :: string
  quality :: int

definition download_bytes :: "env \<Rightarrow> string \<Rightarrow> exn + bytes" where
  "download_bytes E u =
     urlopen E u [(''User-Agent'', ''Mozilla/5.0 (compatible; image-downloader/1.0)'')] 60"

definition original_ext :: "string \<Rightarrow> string" where
  "original_ext u =
     lower (last (str_split (CHR ''.'')
                    (hd (str_split (CHR ''#'') (hd (str_split (CHR ''?'') u))))))"

definition original_path :: "ImageJob \<Rightarrow> path" where
  "original_path job =
     path_join (out_dir job) (base_name job @ ''.orig.'' @ original_ext (url job))"

definition save_original :: "env \<Rightarrow> ImageJob \<Rightarrow> bytes \<Rightarrow> world \<Rightarrow> (exn + path) \<times> world" where
  "save_original E job blob w =
     (case mkdir_parents E (out_dir job) w of
        (Inl err, w1) \<Rightarrow> (Inl err, w1)
      | (Inr _, w1) \<Rightarrow>
          (case write_bytes E (original_path job) blob w1 of
             (Inl err, w2) \<Rightarrow> (Inl err, w2)
           | (Inr _, w2) \<Rightarrow> (Inr (original_path job), w2)))"

definition encode_webp :: "env \<Rightarrow> image \<Rightarrow> path \<Rightarrow> int \<Rightarrow> world \<Rightarrow> (exn + unit) \<times> world" where
  "encode_webp E img out_path q w =
     (case mkdir_parents E (path_parent out_path) w of
        (Inl err, w1) \<Rightarrow> (Inl err, w1)
      | (Inr _, w1) \<Rightarrow> save_webp E img out_path q w1)"

text \<open>Line 72: \<^verbatim>\<open>max(1, round(img.height * (width / img.width)))\<close>. The quotient is
  rounded to a float, then the product is, then \<^verbatim>\<open>round\<close> gives an int.\<close>

definition scaled_height :: "int \<Rightarrow> int \<Rightarrow> int \<Rightarrow> exn + int" where
  "scaled_height h w iw =
     (case int_truediv w iw of
        Inl err \<Rightarrow> Inl err
      | Inr ratio \<Rightarrow>
          (case int_mul_float h ratio of
             Inl err \<Rightarrow> Inl err
           | Inr x \<Rightarrow> (case py_round x of Inl err \<Rightarrow> Inl err | Inr r \<Rightarrow> Inr (max 1 r))))"

definition resize_to_width :: "env \<Rightarrow> image \<Rightarrow> int \<Rightarrow> exn + image" where
  "resize_to_width E img w =
     (if width img = w then Inr img
      else (case scaled_height (height img) w (width img) of
              Inl err \<Rightarrow> Inl err
            | Inr h \<Rightarrow> resize E img w h))"

text \<open>Lines 92 and 93, the normalisation of the mode.\<close>

definition normalize_mode :: "env \<Rightarrow> image \<Rightarrow> exn + image" where
  "normalize_mode E im =
     (if mode im \<noteq> ''RGB'' \<and> mode im \<noteq> ''RGBA''
      then convert E im (if ''A'' \<in> set (getbands E im) then ''RGBA'' else ''RGB'')
      else Inr im)"

definition webp_path :: "ImageJob \<Rightarrow> int \<Rightarrow> path" where
  "webp_path job w = path_join (out_dir job) (base_name job @ ''-'' @ str_int w @ ''.webp'')"

text \<open>Lines 95 to 99, the loop over the widths.\<close>

fun widths_loop :: "env \<Rightarrow> ImageJob \<Rightarrow> image \<Rightarrow> int list \<Rightarrow> world \<Rightarrow> (exn + unit) \<times> world" where
  "widths_loop E job im [] w = (Inr (), w)"
| "widths_loop E job im (x # xs) w =
     (case resize_to_width E im x of
        Inl err \<Rightarrow> (Inl err, w)
      | Inr resized \<Rightarrow>
          (case encode_webp E resized (webp_path job x) (quality job) w of
             (Inl err, w1) \<Rightarrow> (Inl err, w1)
           | (Inr _, w1) \<Rightarrow>
               (case relative_to (webp_path job x) (ROOT E) of
                  Inl err \<Rightarrow> (Inl err, w1)
                | Inr rel \<Rightarrow> widths_loop E job im xs (print_out (''  -> '' @ path_str rel) w1))))"

definition png_path :: "ImageJob \<Rightarrow> path" where
  "png_path job = path_join (out_dir job) (base_name job @ ''.png'')"

text \<open>Lines 81 to 85, the branch of the format \<^verbatim>\<open>png\<close>.\<close>

definition png_copy :: "env \<Rightarrow> ImageJob \<Rightarrow> bytes \<Rightarrow> world \<Rightarrow> (exn + unit) \<times> world" where
  "png_copy E job blob w =
     (case write_bytes E (png_path job) blob w of
        (Inl err, w1) \<Rightarrow> (Inl err, w1)
      | (Inr _, w1) \<Rightarrow>
          (case relative_to (png_path job) (ROOT E) of
             Inl err \<Rightarrow> (Inl err, w1)
           | Inr rel \<Rightarrow> (Inr (), print_out (''  -> '' @ path_str rel) w1)))"

text \<open>Lines 88 to 99, the WebP pipeline.\<close>

definition webp_pipeline :: "env \<Rightarrow> ImageJob \<Rightarrow> bytes \<Rightarrow> world \<Rightarrow> (exn + unit) \<times> world" where
  "webp_pipeline E job blob w =
     (case Image_open E blob of
        Inl err \<Rightarrow> (Inl err, w)
      | Inr im0 \<Rightarrow>
          (case Image_load E im0 of
             Inl err \<Rightarrow> (Inl err, w)
           | Inr im1 \<Rightarrow>
               (case normalize_mode E im1 of
                  Inl err \<Rightarrow> (Inl err, w)
                | Inr im \<Rightarrow> widths_loop E job im (widths job) w)))"

definition process_job :: "env \<Rightarrow> ImageJob \<Rightarrow> world \<Rightarrow> (exn + unit) \<times> world" where
  "process_job E job w =
     (let w0 = print_out (''Baixando: '' @ url job) w
      in case download_bytes E (url job) of
           Inl err \<Rightarrow> (Inl err, w0)
         | Inr blob \<Rightarrow>
             (case save_original E job blob w0 of
                (Inl err, w1) \<Rightarrow> (Inl err, w1)
              | (Inr _, w1) \<Rightarrow>
                  if format job = ''png'' then png_copy E job blob w1
                  else webp_pipeline E job blob w1))"

text \<open>Lines 261 to 267: the loop of \<^verbatim>\<open>main\<close> over the jobs, with its counter.\<close>

fun run_jobs :: "env \<Rightarrow> ImageJob list \<Rightarrow> int \<times> world \<Rightarrow> int \<times> world" where
  "run_jobs E [] s = s"
| "run_jobs E (job # js) (failures, w) =
     (case process_job E job w of
        (Inr _, w1) \<Rightarrow> run_jobs E js (failures, w1)
      | (Inl exc, w1) \<Rightarrow>
          run_jobs E js
            (failures + 1, print_err (''ERRO em '' @ url job @ '': '' @ exn_str exc) w1))"

text \<open>Lines 269 to 274: the report and the exit status.\<close>

definition report :: "int \<times> world \<Rightarrow> int \<times> world" where
  "report s =
     (case s of (failures, w) \<Rightarrow>
        if failures \<noteq> 0
        then (2, print_err (''Conclu'' @ [CHR 0xED] @ ''do com '' @ str_int failures @ '' falha(s).'') w)
        else (0, print_out (''Conclu'' @ [CHR 0xED] @ ''do.'') w))"

definition main_on :: "env \<Rightarrow> ImageJob list \<Rightarrow> world \<Rightarrow> int \<times> world" where
  "main_on E js w = report (run_jobs E js (0, w))"


text \<open>Lines 19 to 21 and 103 to 259: the two output directories and the static list of
  jobs. No job of the list names a format, so each has the default of the dataclass,
  \<^verbatim>\<open>webp\<close>.\<close>

definition OUT_IMAGES :: "env \<Rightarrow> path" where
  "OUT_IMAGES E = path_join (path_join (ROOT E) ''assets'') ''images''"

definition OUT_ICONS :: "env \<Rightarrow> path" where
  "OUT_ICONS E = path_join (path_join (ROOT E) ''assets'') ''icons''"

text \<open>\<^verbatim>\<open>ImageJob(url=u, out_dir=d, base_name=b, widths=ws, quality=q)\<close>, the form of
  every constructor call of the list.\<close>

definition job_webp :: "string \<Rightarrow> path \<Rightarrow> string \<Rightarrow> int list \<Rightarrow> int \<Rightarrow> ImageJob" where
  "job_webp u d b ws q =
     \<lparr>url = u, out_dir = d, base_name = b, widths = ws, format = ''webp'', quality = q\<rparr>"

definition jobs :: "env \<Rightarrow> ImageJob list" where
  "jobs E =
    [
     job_webp ''https://franquiadepilates.com.br/wp-content/uploads/2025/10/Imagem.webp''
       (OUT_IMAGES E) ''hero'' [640, 960, 1280, 1600, 1920] 76,
     job_webp ''https://franquiadepilates.com.br/wp-content/uploads/2024/05/studio_voll_campinas_pilates_5.webp''
       (OUT_IMAGES E) ''target-left'' [480, 640, 800] 78,
     job_webp ''https://franquiadepilates.com.br/wp-content/uploads/2024/05/studio_voll_campinas_pilates_6.webp''
       (OUT_IMAGES E) ''security-bg'' [640, 960, 1200] 76,
     job_webp ''https://franquiadepilates.com.br/wp-content/uploads/2025/09/mapa.webp''
       (OUT_IMAGES E) ''mapa'' [640, 960, 1200] 76,
     job_webp ''https://franquiadepilates.com.br/wp-content/uploads/2025/10/VOLL-PILATES-Logotipo-Institucional-Branco-01.webp''
       (OUT_IMAGES E) ''logo-voll-branco'' [150, 300] 82,
     job_webp ''https://franquiadepilates.com.br/wp-content/uploads/2025/09/Associacao-Brasileira-de-Franchising-e1758288849748.webp''
       (OUT_IMAGES E) ''logo-abf'' [200, 400] 82,
     job_webp ''https://franquiadepilates.com.br/wp-content/uploads/2019/02/voll-pilates.png''
       (OUT_IMAGES E) ''logo-voll-grupo'' [200, 400] 82,
     job_webp ''https://franquiadepilates.com.br/wp-content/uploads/2025/09/maxresdefault.webp''
       (OUT_IMAGES E) ''testi-1'' [480, 768, 1024, 1200] 76,
     job_webp ''https://franquiadepilates.com.br/wp-content/uploads/2025/09/depoimento2.webp''
       (OUT_IMAGES E) ''testi-2'' [480, 768, 1024, 1200] 76,
     job_webp ''https://franquiadepilates.com.br/wp-content/uploads/2025/09/depoimento3.webp''
       (OUT_IMAGES E) ''testi-3'' [480, 768, 1024, 1200] 76,
     job_webp ''https://franquiadepilates.com.br/wp-content/uploads/2025/09/depoimento4.webp''
       (OUT_IMAGES E) ''testi-4'' [480, 768, 1024, 1200] 76,
     job_webp ''https://franquiadepilates.com.br/wp-content/uploads/2025/09/depoimento5.webp''
       (OUT_IMAGES E) ''testi-5'' [480, 768, 1024, 1200] 76,
     job_webp ''https://franquiadepilates.com.br/wp-content/uploads/2019/11/icons8-f%C3%A1cil-100.png''
       (OUT_ICONS E) ''investimento-facilitado'' [64, 128] 80,
     job_webp ''https://franquiadepilates.com.br/wp-content/uploads/2019/11/icons8-presente-100.png''
       (OUT_ICONS E) ''equipamentos'' [64, 128] 80,
     job_webp ''https://franquiadepilates.com.br/wp-content/uploads/2019/11/icons8-gr%C3%A1fico-100.png''
       (OUT_ICONS E) ''escalabilidade'' [64, 128] 80,
     job_webp ''https://franquiadepilates.com.br/wp-content/uploads/2019/11/icons8-professor-100.png''
       (OUT_ICONS E) ''formacao-tecnica'' [64, 128] 80,
     job_webp ''https://franquiadepilates.com.br/wp-content/uploads/2019/11/icons8-undefined-100.png''
       (OUT_ICONS E) ''direitos-marca'' [64, 128] 80,
     job_webp ''https://franquiadepilates.com.br/wp-content/uploads/2019/11/icons8-sacar-dinheiro-100.png''
       (OUT_ICONS E) ''fature-muito'' [64, 128] 80,
     job_webp ''https://franquiadepilates.com.br/wp-content/uploads/2019/11/icons8-restitui%C3%A7%C3%A3o-2-100.png''
       (OUT_ICONS E) ''payback'' [48, 96] 80,
     job_webp ''https://franquiadepilates.com.br/wp-content/uploads/2019/11/icons8-undefined-1001.png''
       (OUT_ICONS E) ''breakeven'' [48, 96] 80,
     job_webp ''https://franquiadepilates.com.br/wp-content/uploads/2019/11/icons8-comprar-moedas-100.png''
       (OUT_ICONS E) ''royalties'' [48, 96] 80
    ]"

definition main :: "env \<Rightarrow> world \<Rightarrow> int \<times> world" where
  "main E w = main_on E (jobs E) w"

section \<open>Stages of a job\<close>

text \<open>The world once a job has printed its first line, and once its original is archived
  in it.\<close>

definition started :: "ImageJob \<Rightarrow> world \<Rightarrow> world" where
  "started job w = print_out (''Baixando: '' @ url job) w"

definition archived :: "ImageJob \<Rightarrow> bytes \<Rightarrow> world \<Rightarrow> world" where
  "archived job blob w =
     (make_dirs (out_dir job) (started job w))\<lparr>files := (files w)(original_path job \<mapsto> blob)\<rparr>"

text \<open>The jobs of a run whose pipeline raised, in order; each job sees the world that the
  jobs before it left, error lines included. The first line that a job prints, and the
  lines that have its form.\<close>

fun failed_jobs :: "env \<Rightarrow> ImageJob list \<Rightarrow> world \<Rightarrow> ImageJob list" where
  "failed_jobs E [] w = []"
| "failed_jobs E (job # js) w =
     (case process_job E job w of
        (Inr _, w1) \<Rightarrow> failed_jobs E js w1
      | (Inl exc, w1) \<Rightarrow>
          job # failed_jobs E js (print_err (''ERRO em '' @ url job @ '': '' @ exn_str exc) w1))"

definition start_line :: "ImageJob \<Rightarrow> string" where
  "start_line job = ''Baixando: '' @ url job"

definition is_start_line :: "string \<Rightarrow> bool" where
  "is_start_line l \<longleftrightarrow> take 10 l = ''Baixando: ''"

section \<open>The specification's own formulas\<close>

text \<open>The height that the specification writes, \<^verbatim>\<open>round(H * w / W)\<close> with a floor of
  one pixel, on the exact quotient.\<close>

definition spec_scaled_height :: "int \<Rightarrow> int \<Rightarrow> int \<Rightarrow> int" where
  "spec_scaled_height h w iw = max 1 (round_half_even (h * w) iw)"

text \<open>The URL with its query string and its fragment removed, the text after the last
  occurrence of a character, and the URL's last path extension: the text after the last
  dot of the final path segment, when that segment has a dot.\<close>

definition spec_strip_query_fragment :: "string \<Rightarrow> string" where
  "spec_strip_query_fragment u = takeWhile (\<lambda>c. c \<noteq> CHR ''?'' \<and> c \<noteq> CHR ''#'') u"

definition spec_after_last :: "char \<Rightarrow> string \<Rightarrow> string" where
  "spec_after_last c s = rev (takeWhile (\<lambda>x. x \<noteq> c) (rev s))"

definition spec_url_path_extension :: "string \<Rightarrow> string option" where
  "spec_url_path_extension u =
     (let seg = spec_after_last (CHR ''/'') (spec_strip_query_fragment u)
      in if CHR ''.'' \<in> set seg then Some (spec_after_last (CHR ''.'') seg) else None)"


text \<open>A mode with an alpha band, the band that holds the transparency: Pillow names it
  \<^verbatim>\<open>A\<close>, and \<^verbatim>\<open>a\<close> in the modes whose colours are premultiplied by it. The band
  \<^verbatim>\<open>A\<close> of the mode \<^verbatim>\<open>LAB\<close> is a colour axis of CIELAB, not an alpha band.\<close>

definition spec_alpha_mode :: "string \<Rightarrow> bool" where
  "spec_alpha_mode m \<longleftrightarrow> m \<in> {''RGBA'', ''LA'', ''PA'', ''RGBa'', ''La''}"

section \<open>Concrete inputs\<close>

text \<open>The bands of Pillow's modes, from the table of its module \<^verbatim>\<open>ImageMode\<close>, the
  modes that only some of its versions have included; a mode that Pillow does not know
  has no bands here.\<close>

definition pillow_bands :: "string \<Rightarrow> string list" where
  "pillow_bands m =
     (if m = ''1'' then [''1'']
      else if m = ''L'' then [''L'']
      else if m = ''I'' then [''I'']
      else if m = ''F'' then [''F'']
      else if m = ''P'' then [''P'']
      else if m = ''RGB'' then [''R'', ''G'', ''B'']
      else if m = ''RGBX'' then [''R'', ''G'', ''B'', ''X'']
      else if m = ''RGBA'' then [''R'', ''G'', ''B'', ''A'']
      else if m = ''CMYK'' then [''C'', ''M'', ''Y'', ''K'']
      else if m = ''YCbCr'' then [''Y'', ''Cb'', ''Cr'']
      else if m = ''LAB'' then [''L'', ''A'', ''B'']
      else if m = ''HSV'' then [''H'', ''S'', ''V'']
      else if m = ''RGBa'' then [''R'', ''G'', ''B'', ''a'']
      else if m = ''LA'' then [''L'', ''A'']
      else if m = ''La'' then [''L'', ''a'']
      else if m = ''PA'' then [''P'', ''A'']
      else if m = ''BGR;15'' \<or> m = ''BGR;16'' \<or> m = ''BGR;24'' then [''B'', ''G'', ''R'']
      else if m \<in> {''I;16'', ''I;16S'', ''I;16L'', ''I;16LS'', ''I;16B'', ''I;16BS'', ''I;16N'',
                    ''I;16NS'', ''I;32'', ''I;32B'', ''I;32L'', ''I;32S'', ''I;32BS'', ''I;32LS''}
      then [''I'']
      else [])"

text \<open>
  A POSIX file system that refuses to create a file in a directory that does not exist.
  The directories that exist are the ones made so far, each with its \<^verbatim>\<open>..\<close> components
  resolved; the directory of the file is looked up component by component, \<^verbatim>\<open>..\<close>
  leading to the parent of the directory reached. Both roots are the root, which is the
  working directory too.
\<close>

definition posix_norm :: "string list \<Rightarrow> string list" where
  "posix_norm cs = foldl (\<lambda>cur c. if c = ''..'' then butlast cur else cur @ [c]) [] cs"

fun posix_walk :: "string list set \<Rightarrow> string list \<Rightarrow> string list \<Rightarrow> bool" where
  "posix_walk D cur [] = True"
| "posix_walk D cur (c # cs) =
     (if c = ''..'' then posix_walk D (butlast cur) cs
      else cur @ [c] \<in> D \<and> posix_walk D (cur @ [c]) cs)"

definition posix_write_fault :: "world \<Rightarrow> path \<Rightarrow> exn option" where
  "posix_write_fault w p =
     (if posix_walk ((\<lambda>d. posix_norm (parts d)) ` dirs w) [] (butlast (parts p)) then None
      else Some (Exn ''FileNotFoundError''
             (''[Errno 2] No such file or directory: '' @ [CHR 39] @ path_str p @ [CHR 39])))"

definition blob0 :: bytes where
  "blob0 = [137, 80, 78, 71]"

definition img0 :: image where
  "img0 = \<lparr>width = 220, height = 143, mode = ''RGB'', raster = [1, 2, 3]\<rparr>"

definition img_hd :: image where
  "img_hd = \<lparr>width = 1920, height = 1080, mode = ''RGB'', raster = [1, 2, 3]\<rparr>"

definition img_palette :: image where
  "img_palette = \<lparr>width = 100, height = 100, mode = ''P'', raster = [4, 5]\<rparr>"

text \<open>A CIELAB bitmap and a grey bitmap with an alpha band.\<close>

definition img_lab :: image where
  "img_lab = \<lparr>width = 100, height = 100, mode = ''LAB'', raster = [6, 7, 8]\<rparr>"

definition img_gray_alpha :: image where
  "img_gray_alpha = \<lparr>width = 100, height = 100, mode = ''LA'', raster = [9, 10]\<rparr>"

definition world0 :: world where
  "world0 =
     \<lparr>files = Map.empty, dirs = {Path ''/'' [], Path ''/'' [''repo'']}, stdout = [], stderr = []\<rparr>"

definition env0 :: env where
  "env0 =
     \<lparr>ROOT = Path ''/'' [''repo''],
      urlopen = (\<lambda>u hs t. Inr blob0),
      mkdir_fault = (\<lambda>w p. None),
      write_fault = posix_write_fault,
      Image_open = (\<lambda>b. Inr img0),
      Image_load = (\<lambda>im. Inr im),
      mode_bands = pillow_bands,
      convert_raster = (\<lambda>im m. Inr (raster im)),
      lanczos_raster = (\<lambda>im w h. Inr [7]),
      webp_encode = (\<lambda>im q. Inr [82, 73, 70, 70])\<rparr>"

definition env_palette :: env where
  "env_palette = env0\<lparr>Image_open := (\<lambda>b. Inr img_palette)\<rparr>"

definition env_lab :: env where
  "env_lab = env0\<lparr>Image_open := (\<lambda>b. Inr img_lab)\<rparr>"

definition env_gray_alpha :: env where
  "env_gray_alpha = env0\<lparr>Image_open := (\<lambda>b. Inr img_gray_alpha)\<rparr>"

text \<open>A decoder that gives the palette bitmap, with a converter that runs out of memory.\<close>

definition env_convert_fails :: env where
  "env_convert_fails = env_palette\<lparr>convert_raster := (\<lambda>im m. Inl (Exn ''MemoryError'' []))\<rparr>"

text \<open>The first job of the list.\<close>

definition job_hero :: ImageJob where
  "job_hero = hd (jobs env0)"

text \<open>A job whose URL has no dot in its final path segment, one whose URL has a directory
  after the host, and one whose URL ends with the slash after the host. Two jobs whose
  base name is an absolute path, the second with the directory of its archive path as
  destination directory.\<close>

definition job_nodot :: ImageJob where
  "job_nodot = job_webp ''https://example.com/logo'' (OUT_IMAGES env0) ''logo'' [64] 80"





text \<open>The first job without widths; the job \<^verbatim>\<open>logo-voll-grupo\<close> of the list, and the same
  job with the format \<^verbatim>\<open>png\<close>; an environment whose WebP encoder fails.\<close>

definition job_empty :: ImageJob where
  "job_empty = job_hero\<lparr>widths := []\<rparr>"

definition job_logo :: ImageJob where
  "job_logo = jobs env0 ! 6"

definition job_logo_png :: ImageJob where
  "job_logo_png = job_logo\<lparr>format := ''png''\<rparr>"

text \<open>A job of the format \<^verbatim>\<open>png\<close> whose base name starts with two slashes: its files
  are not below the project root.\<close>

definition job_outside :: ImageJob where
  "job_outside = job_logo_png\<lparr>base_name := ''//repo/logo''\<rparr>"

definition env_encoder_fails :: env where
  "env_encoder_fails = env0\<lparr>webp_encode := (\<lambda>im q.
     Inl (Exn ''OSError'' ''cannot write file as WebP (encoder returned None)''))\<rparr>"

text \<open>A server that answers 404 for two of the URLs, and three jobs of the list, two of
  them with those URLs.\<close>

definition env404 :: env where
  "env404 = env0\<lparr>urlopen := (\<lambda>u hs t.
     if u = ''https://franquiadepilates.com.br/wp-content/uploads/2025/09/mapa.webp''
        \<or> u = ''https://franquiadepilates.com.br/wp-content/uploads/2019/11/icons8-presente-100.png''
     then Inl (Exn ''HTTPError'' ''HTTP Error 404: Not Found'') else Inr blob0)\<rparr>"

definition job_mapa :: ImageJob where
  "job_mapa = jobs env0 ! 3"

definition job_equipamentos :: ImageJob where
  "job_equipamentos = jobs env0 ! 13"

definition three_jobs :: "ImageJob list" where
  "three_jobs = [job_mapa, job_logo, job_equipamentos]"

section \<open>Properties\<close>

subsection \<open>Float arithmetic\<close>

text \<open>
  Rounding a quotient to a float has a relative error of at most \<open>1 / 2 ^ 53\<close>. For
  sizes below \<open>2 ^ 24\<close> the float computation of line 72 therefore stays within
  \<open>5 / 32 / W\<close> of the exact quotient \<open>H * w / W\<close>: the rounded result is the exact
  one unless the exact quotient lies half-way between two integers, and is next to it
  then.
\<close>

lemma bit_length_bounds:
  "0 < n \<Longrightarrow> 1 \<le> bit_length n \<and> 2 ^ nat (bit_length n - 1) \<le> n \<and> n < 2 ^ nat (bit_length n)"
proof (induction n rule: bit_length.induct)
  case (1 n)
  have b: "bit_length n = 1 + bit_length (n div 2)"
    using 1(2) by (subst bit_length.simps) simp
  show ?case
  proof (cases "n div 2 = 0")
    case True
    then have "n = 1" using 1(2) by presburger
    then show ?thesis
      by (simp add: b) (simp add: bit_length.simps)
  next
    case False
    then have pos: "0 < n div 2" using 1(2) by presburger
    from 1(1) pos 1(2) have ih: "1 \<le> bit_length (n div 2)"
      "2 ^ nat (bit_length (n div 2) - 1) \<le> n div 2" "n div 2 < 2 ^ nat (bit_length (n div 2))"
      by auto
    have s: "nat (bit_length n - 1) = Suc (nat (bit_length (n div 2) - 1))"
      "nat (bit_length n) = Suc (nat (bit_length (n div 2)))"
      using ih(1) b by auto
    have "2 * (n div 2) \<le> n" "n < 2 * (n div 2) + 2" by presburger+
    with ih show ?thesis unfolding s by (auto simp: b)
  qed
qed


lemma bit_length_real:
  assumes "0 < n"
  shows "2 powi (bit_length n - 1) \<le> real_of_int n" and "real_of_int n < 2 powi (bit_length n)"
proof -
  from bit_length_bounds [OF assms] have b: "1 \<le> bit_length n"
    and l: "2 ^ nat (bit_length n - 1) \<le> n" and u: "n < 2 ^ nat (bit_length n)"
    by auto
  have "real_of_int (2 ^ nat (bit_length n - 1)) \<le> real_of_int n"
    using l by (simp only: of_int_le_iff)
  then show "2 powi (bit_length n - 1) \<le> real_of_int n"
    using b by (simp add: power_int_def)
  have "real_of_int n < real_of_int (2 ^ nat (bit_length n))"
    using u by (simp only: of_int_less_iff)
  then show "real_of_int n < 2 powi (bit_length n)"
    using b by (simp add: power_int_def)
qed

lemma powi_two_pos: "0 < (2::real) powi k"
  by (simp add: power_int_def)

lemma powi_two_Suc: "(2::real) powi (k + 1) = 2 * 2 powi k"
  by (simp add: power_int_add)

lemma floor_log2_test:
  assumes "0 < a" and "0 < b"
  shows "(if 0 \<le> d then b * 2 ^ nat d \<le> a else b \<le> a * 2 ^ nat (- d))
           \<longleftrightarrow> 2 powi d \<le> real_of_int a / real_of_int b"
proof (cases "0 \<le> d")
  case True
  have "b * 2 ^ nat d \<le> a \<longleftrightarrow> real_of_int (b * 2 ^ nat d) \<le> real_of_int a"
    by (simp only: of_int_le_iff)
  also have "\<dots> \<longleftrightarrow> 2 ^ nat d \<le> real_of_int a / real_of_int b"
    using assms by (simp add: pos_le_divide_eq mult.commute)
  finally show ?thesis using True by (simp add: power_int_def)
next
  case False
  have "b \<le> a * 2 ^ nat (- d) \<longleftrightarrow> real_of_int b \<le> real_of_int (a * 2 ^ nat (- d))"
    by (simp only: of_int_le_iff)
  also have "\<dots> \<longleftrightarrow> inverse (2 ^ nat (- d)) \<le> real_of_int a / real_of_int b"
    using assms by (simp add: field_simps)
  finally show ?thesis using False by (simp add: power_int_def inverse_eq_divide power_divide)
qed

lemma floor_log2_ratio_bounds:
  assumes "0 < a" and "0 < b"
  shows "2 powi (floor_log2_ratio a b) \<le> real_of_int a / real_of_int b"
    and "real_of_int a / real_of_int b < 2 powi (floor_log2_ratio a b + 1)"
proof -
  let ?d = "bit_length a - bit_length b"
  let ?q = "real_of_int a / real_of_int b"
  have rb: "0 < real_of_int b" and ra: "0 < real_of_int a" using assms by simp_all
  have up: "?q < 2 powi (?d + 1)"
  proof -
    have "real_of_int a < 2 powi (bit_length a)"
      using bit_length_real(2) [OF assms(1)] .
    moreover have "2 powi (bit_length b - 1) \<le> real_of_int b"
      using bit_length_real(1) [OF assms(2)] .
    ultimately have "real_of_int a * 2 powi (bit_length b - 1) < 2 powi (bit_length a) * real_of_int b"
      using ra rb powi_two_pos [of "bit_length a"] powi_two_pos [of "bit_length b - 1"]
      by (meson mult_less_le_imp_less less_eq_real_def)
    then have "?q < 2 powi (bit_length a) / 2 powi (bit_length b - 1)"
      using rb powi_two_pos [of "bit_length b - 1"] by (simp add: field_simps)
    also have "\<dots> = 2 powi (bit_length a - (bit_length b - 1))"
      by (simp add: power_int_diff)
    also have "bit_length a - (bit_length b - 1) = ?d + 1"
      by simp
    finally show ?thesis .
  qed
  have lo: "2 powi (?d - 1) < ?q"
  proof -
    have "2 powi (bit_length a - 1) \<le> real_of_int a"
      using bit_length_real(1) [OF assms(1)] .
    moreover have "real_of_int b < 2 powi (bit_length b)"
      using bit_length_real(2) [OF assms(2)] .
    ultimately have "2 powi (bit_length a - 1) * real_of_int b < real_of_int a * 2 powi (bit_length b)"
      using ra rb powi_two_pos [of "bit_length a - 1"] powi_two_pos [of "bit_length b"]
      by (meson mult_le_less_imp_less less_eq_real_def)
    then have "2 powi (bit_length a - 1) / 2 powi (bit_length b) < ?q"
      using rb powi_two_pos [of "bit_length b"] by (simp add: field_simps)
    moreover have "2 powi (bit_length a - 1) / (2::real) powi (bit_length b)
                     = 2 powi (bit_length a - 1 - bit_length b)"
      by (simp add: power_int_diff)
    moreover have "bit_length a - 1 - bit_length b = ?d - 1"
      by simp
    ultimately show ?thesis by simp
  qed
  note t = floor_log2_test [OF assms, of ?d]
  show "2 powi (floor_log2_ratio a b) \<le> ?q"
    using t lo by (auto simp: floor_log2_ratio_def Let_def)
  show "?q < 2 powi (floor_log2_ratio a b + 1)"
    using t up by (auto simp: floor_log2_ratio_def Let_def)
qed

lemma round_half_even_error:
  assumes "0 < d"
  shows "\<bar>real_of_int (round_half_even n d) - real_of_int n / real_of_int d\<bar> \<le> 1 / 2"
proof -
  let ?f = "n div d" and ?r = "n mod d"
  have n: "real_of_int n = real_of_int ?f * real_of_int d + real_of_int ?r"
    by (metis mult.commute of_int_add of_int_mult mult_div_mod_eq)
  have r: "0 \<le> ?r" "?r < d" using assms by simp_all
  have q: "real_of_int n / real_of_int d = real_of_int ?f + real_of_int ?r / real_of_int d"
    using assms by (simp add: n field_simps)
  have r0: "0 \<le> real_of_int ?r / real_of_int d" "real_of_int ?r / real_of_int d < 1"
    using r assms by simp_all
  show ?thesis
  proof (cases "2 * ?r < d")
    case True
    then have "real_of_int (2 * ?r) < real_of_int d" by (simp only: of_int_less_iff)
    then have "real_of_int ?r / real_of_int d < 1 / 2" using assms by (simp add: field_simps)
    with True r0 show ?thesis by (simp add: round_half_even_def Let_def q)
  next
    case False
    show ?thesis
    proof (cases "d < 2 * ?r")
      case True
      then have "real_of_int d < real_of_int (2 * ?r)" by (simp only: of_int_less_iff)
      then have "1 / 2 < real_of_int ?r / real_of_int d" using assms by (simp add: field_simps)
      with True False r0 show ?thesis by (simp add: round_half_even_def Let_def q)
    next
      case F2: False
      with False have "d = 2 * ?r" by simp
      then have "real_of_int d = 2 * real_of_int ?r" by (metis of_int_mult of_int_numeral)
      then have "real_of_int ?r / real_of_int d = 1 / 2" using assms by (simp add: field_simps)
      then have q': "real_of_int n / real_of_int d = real_of_int ?f + 1 / 2"
        using q by simp
      have e: "round_half_even n d = (if even ?f then ?f else ?f + 1)"
        using False F2 by (simp add: round_half_even_def Let_def)
      show ?thesis unfolding e q' by (cases "even ?f") simp_all
    qed
  qed
qed


lemma powi_two_less_cancel: "(2::real) powi a < 2 powi b \<Longrightarrow> a < b"
  using power_int_increasing [of b a "2::real"] by (cases "a < b") auto

lemma float_of_ratio_error:
  assumes p: "0 < p" and q: "0 < q"
    and lo: "2 powi (- 1000) \<le> real_of_int p / real_of_int q"
    and hi: "real_of_int p / real_of_int q < 2 powi 1000"
  shows "\<exists>m e. float_of_ratio p q = Finite m e \<and> 0 < m
           \<and> \<bar>real_of_int m * 2 powi e - real_of_int p / real_of_int q\<bar>
               \<le> real_of_int p / real_of_int q * 2 powi (- 53)"
proof -
  let ?x = "real_of_int p / real_of_int q"
  let ?k = "floor_log2_ratio p q"
  let ?e = "?k - 52"
  have kl: "2 powi ?k \<le> ?x" and ku: "?x < 2 powi (?k + 1)"
    using floor_log2_ratio_bounds [OF p q] by blast+
  have "2 powi (- 1000) < (2::real) powi (?k + 1)" using lo ku by (rule le_less_trans)
  then have k1: "- 1000 \<le> ?k" using powi_two_less_cancel by fastforce
  have "(2::real) powi ?k < 2 powi 1000" using kl hi by (rule le_less_trans)
  then have k2: "?k < 1000" by (rule powi_two_less_cancel)
  have e: "max (?k - 52) (- 1074) = ?e" using k1 by simp
  define m where "m = (if 0 \<le> ?e then round_half_even p (q * 2 ^ nat ?e)
                       else round_half_even (p * 2 ^ nat (- ?e)) q)"
  let ?y = "?x / 2 powi ?e"
  have pe: "0 < (2::real) powi ?e" by (rule powi_two_pos)
  have my: "\<bar>real_of_int m - ?y\<bar> \<le> 1 / 2"
  proof (cases "0 \<le> ?e")
    case True
    have pw: "(2::real) powi ?e = 2 ^ nat ?e"
      using True by (rule power_int_nonneg_exp)
    have "0 < q * 2 ^ nat ?e" using q by simp
    from round_half_even_error [OF this, of p]
    have A: "\<bar>real_of_int m - real_of_int p / real_of_int (q * 2 ^ nat ?e)\<bar> \<le> 1 / 2"
      using True by (simp add: m_def)
    have "real_of_int p / real_of_int (q * 2 ^ nat ?e)
            = real_of_int p / (real_of_int q * 2 powi ?e)"
      unfolding pw by simp
    also have "\<dots> = ?y"
      by (simp only: divide_divide_eq_left)
    finally have B: "real_of_int p / real_of_int (q * 2 ^ nat ?e) = ?y" .
    show ?thesis using A unfolding B .
  next
    case False
    have pw: "(2::real) powi ?e * 2 ^ nat (- ?e) = 1"
      using False by (simp add: power_int_def field_simps)
    from round_half_even_error [OF q, of "p * 2 ^ nat (- ?e)"]
    have A: "\<bar>real_of_int m - real_of_int (p * 2 ^ nat (- ?e)) / real_of_int q\<bar> \<le> 1 / 2"
      using False by (simp add: m_def)
    have "?y * 2 powi ?e = ?x"
      using pe by simp
    then have "?y * (2 powi ?e * 2 ^ nat (- ?e)) = ?x * 2 ^ nat (- ?e)"
      by (simp only: mult.assoc [symmetric])
    then have "?y = ?x * 2 ^ nat (- ?e)"
      unfolding pw by simp
    also have "\<dots> = real_of_int (p * 2 ^ nat (- ?e)) / real_of_int q"
      by simp
    finally have B: "real_of_int (p * 2 ^ nat (- ?e)) / real_of_int q = ?y" by simp
    show ?thesis using A unfolding B .
  qed
  have "2 powi ?k / 2 powi ?e \<le> ?y"
    by (rule divide_right_mono [OF kl less_imp_le [OF pe]])
  moreover have "(2::real) powi ?k / 2 powi ?e = 2 powi (?k - ?e)"
    by (simp add: power_int_diff)
  ultimately have yl: "2 ^ 52 \<le> ?y" by simp
  have mpos: "0 < m"
  proof -
    have "(1::real) \<le> 2 ^ 52" by simp
    with yl my have "0 < real_of_int m" by linarith
    then show ?thesis by simp
  qed
  have f: "float_of_ratio p q = Finite m ?e"
    using p k2 by (simp add: float_of_ratio_def Let_def e m_def)
  have "\<bar>real_of_int m * 2 powi ?e - ?x\<bar> = \<bar>real_of_int m - ?y\<bar> * 2 powi ?e"
  proof -
    have "real_of_int m * 2 powi ?e - ?x = (real_of_int m - ?y) * 2 powi ?e"
      using pe by (simp add: field_simps)
    then show ?thesis using pe by (simp add: abs_mult)
  qed
  also have "\<dots> \<le> 1 / 2 * 2 powi ?e"
    using my pe by (simp add: mult_right_mono)
  also have "1 / 2 * (2::real) powi ?e = 2 powi ?k * 2 powi (- 53)"
  proof -
    have E: "(2::real) powi ?e = 2 powi ?k / 2 ^ 52"
      by (simp add: power_int_diff)
    have M: "(2::real) powi (- 53) = 1 / 2 ^ 53"
      by (simp add: power_int_minus_divide)
    show ?thesis unfolding E M by simp
  qed
  also have "\<dots> \<le> ?x * 2 powi (- 53)"
    using kl powi_two_pos [of "- 53"] by (simp add: mult_right_mono)
  finally have "\<bar>real_of_int m * 2 powi ?e - ?x\<bar> \<le> ?x * 2 powi (- 53)" .
  with f mpos show ?thesis by blast
qed


lemma powi_two_neg: "e < 0 \<Longrightarrow> (2::real) powi e = 1 / 2 ^ nat (- e)"
  by (simp add: power_int_def inverse_eq_divide power_divide)

lemma float_of_ratio_error_small:
  assumes p: "0 < p" and q: "0 < q"
    and lo: "1 / 2 ^ 60 \<le> real_of_int p / real_of_int q"
    and hi: "real_of_int p / real_of_int q < 2 ^ 60"
  shows "\<exists>m e. float_of_ratio p q = Finite m e \<and> 0 < m
           \<and> \<bar>real_of_int m * 2 powi e - real_of_int p / real_of_int q\<bar>
               \<le> real_of_int p / real_of_int q * (1 / 2 ^ 53)"
proof -
  have "(2::real) powi (- 1000) \<le> 2 powi (- 60)"
    by (rule power_int_increasing) simp_all
  also have "(2::real) powi (- 60) = 1 / 2 ^ 60"
    by (simp add: power_int_minus_divide)
  finally have l: "2 powi (- 1000) \<le> real_of_int p / real_of_int q"
    using lo by (rule order_trans)
  have "(2::real) powi 60 \<le> 2 powi 1000"
    by (rule power_int_increasing) simp_all
  moreover have "(2::real) powi 60 = 2 ^ 60"
    by simp
  ultimately have "(2::real) ^ 60 \<le> 2 powi 1000"
    by (simp only:)
  with hi have h: "real_of_int p / real_of_int q < 2 powi 1000"
    by (rule less_le_trans)
  have M: "(2::real) powi (- 53) = 1 / 2 ^ 53"
    by (simp add: power_int_minus_divide)
  from float_of_ratio_error [OF p q l h] show ?thesis
    unfolding M .
qed

lemma product_error:
  fixes H x vh v1 X u :: real
  assumes u: "0 \<le> u" "3 * u \<le> 1" and H: "0 \<le> H" and x: "0 \<le> x"
    and a: "\<bar>vh - H\<bar> \<le> H * u" and b: "\<bar>v1 - x\<bar> \<le> x * u"
    and c: "\<bar>X - vh * v1\<bar> \<le> vh * v1 * u"
  shows "\<bar>X - H * x\<bar> \<le> 5 * (H * x * u)"
proof -
  have u1: "u \<le> 1" using u by linarith
  have xu: "x * u \<le> x" using x u1 by (simp add: mult_left_le)
  have Hu: "0 \<le> H * u" using H u by simp
  have v1p: "0 \<le> v1" and v12: "v1 \<le> 2 * x" using b xu by linarith+
  have "\<bar>vh - H\<bar> * v1 \<le> (H * u) * (2 * x)"
    using a v12 Hu v1p by (rule mult_mono)
  then have s1: "\<bar>vh - H\<bar> * v1 \<le> 2 * (H * x * u)" by (simp add: mult_ac)
  have "H * \<bar>v1 - x\<bar> \<le> H * (x * u)"
    using b H by (rule mult_left_mono)
  then have s2: "H * \<bar>v1 - x\<bar> \<le> H * x * u" by (simp add: mult_ac)
  have "vh * v1 - H * x = (vh - H) * v1 + H * (v1 - x)"
    by (simp add: algebra_simps)
  then have "\<bar>vh * v1 - H * x\<bar> \<le> \<bar>(vh - H) * v1\<bar> + \<bar>H * (v1 - x)\<bar>"
    by (metis abs_triangle_ineq)
  also have "\<dots> = \<bar>vh - H\<bar> * v1 + H * \<bar>v1 - x\<bar>"
    using v1p H by (simp add: abs_mult)
  finally have d: "\<bar>vh * v1 - H * x\<bar> \<le> 3 * (H * x * u)"
    using s1 s2 by linarith
  have t: "0 \<le> H * x * u" using H x u by simp
  have "3 * (H * x * u) = (H * x) * (3 * u)" by simp
  also have "\<dots> \<le> (H * x) * 1"
    using u(2) H x by (intro mult_left_mono) simp_all
  finally have "3 * (H * x * u) \<le> H * x" by simp
  with d have e: "vh * v1 \<le> 2 * (H * x)" by linarith
  have "vh * v1 * u \<le> 2 * (H * x) * u"
    using e u(1) by (rule mult_right_mono)
  with c have "\<bar>X - vh * v1\<bar> \<le> 2 * (H * x * u)" by (simp add: mult_ac)
  with d show ?thesis by linarith
qed


lemma float_of_int_error:
  assumes "0 < h" and "h < 2 ^ 24"
  shows "\<exists>m e. float_of_int h = Inr (Finite m e) \<and> 0 < m
           \<and> \<bar>real_of_int m * 2 powi e - real_of_int h\<bar> \<le> real_of_int h * (1 / 2 ^ 53)"
proof -
  have h1: "1 \<le> real_of_int h" using assms(1) by simp
  have "real_of_int h < real_of_int (2 ^ 24)" using assms(2) by (simp only: of_int_less_iff)
  then have h2: "real_of_int h < 2 ^ 24" by simp
  have lo: "1 / 2 ^ 60 \<le> real_of_int h / real_of_int 1" using h1 by simp
  have hi: "real_of_int h / real_of_int 1 < 2 ^ 60" using h2 by simp
  from float_of_ratio_error_small [OF assms(1) _ lo hi] obtain m e where
    "float_of_ratio h 1 = Finite m e" "0 < m"
    "\<bar>real_of_int m * 2 powi e - real_of_int h / real_of_int 1\<bar>
       \<le> real_of_int h / real_of_int 1 * (1 / 2 ^ 53)"
    by auto
  then show ?thesis by (auto simp: float_of_int_def)
qed

lemma int_truediv_error:
  assumes "0 < w" and "w < 2 ^ 24" and "0 < iw" and "iw < 2 ^ 24"
  shows "\<exists>m e. int_truediv w iw = Inr (Finite m e) \<and> 0 < m
           \<and> \<bar>real_of_int m * 2 powi e - real_of_int w / real_of_int iw\<bar>
               \<le> real_of_int w / real_of_int iw * (1 / 2 ^ 53)"
proof -
  have w1: "1 \<le> real_of_int w" and i1: "1 \<le> real_of_int iw" using assms by simp_all
  have "real_of_int w < real_of_int (2 ^ 24)" using assms(2) by (simp only: of_int_less_iff)
  then have w2: "real_of_int w < 2 ^ 24" by simp
  have "real_of_int iw < real_of_int (2 ^ 24)" using assms(4) by (simp only: of_int_less_iff)
  then have i2: "real_of_int iw < 2 ^ 24" by simp
  have "real_of_int iw \<le> 2 ^ 60 * real_of_int w" using i2 w1 by simp
  then have lo: "1 / 2 ^ 60 \<le> real_of_int w / real_of_int iw"
    using i1 by (simp add: field_simps)
  have "real_of_int w < 2 ^ 60 * real_of_int iw" using w2 i1 by simp
  then have hi: "real_of_int w / real_of_int iw < 2 ^ 60"
    using i1 by (simp add: field_simps)
  from float_of_ratio_error_small [OF assms(1) assms(3) lo hi] obtain m e where
    "float_of_ratio w iw = Finite m e" "0 < m"
    "\<bar>real_of_int m * 2 powi e - real_of_int w / real_of_int iw\<bar>
       \<le> real_of_int w / real_of_int iw * (1 / 2 ^ 53)"
    by auto
  then show ?thesis using assms(3) by (auto simp: int_truediv_def)
qed

lemma float_mul_error:
  assumes m: "0 < m" and n: "0 < n"
    and lo: "1 / 2 ^ 60 \<le> (real_of_int m * 2 powi e) * (real_of_int n * 2 powi f)"
    and hi: "(real_of_int m * 2 powi e) * (real_of_int n * 2 powi f) < 2 ^ 60"
  shows "\<exists>k g. float_mul (Finite m e) (Finite n f) = Finite k g
           \<and> \<bar>real_of_int k * 2 powi g - (real_of_int m * 2 powi e) * (real_of_int n * 2 powi f)\<bar>
               \<le> (real_of_int m * 2 powi e) * (real_of_int n * 2 powi f) * (1 / 2 ^ 53)"
proof -
  let ?v = "(real_of_int m * 2 powi e) * (real_of_int n * 2 powi f)"
  have mn: "0 < m * n" using m n by simp
  have v: "?v = real_of_int (m * n) * 2 powi (e + f)"
    by (simp add: power_int_add)
  show ?thesis
  proof (cases "0 \<le> e + f")
    case True
    let ?P = "m * n * 2 ^ nat (e + f)"
    have P: "0 < ?P" using mn by simp
    have r: "real_of_int ?P / real_of_int 1 = ?v"
      unfolding v using True by (simp add: power_int_nonneg_exp)
    from float_of_ratio_error_small [OF P, of 1] lo hi obtain k g where
      "float_of_ratio ?P 1 = Finite k g"
      "\<bar>real_of_int k * 2 powi g - real_of_int ?P / real_of_int 1\<bar>
         \<le> real_of_int ?P / real_of_int 1 * (1 / 2 ^ 53)"
      unfolding r by auto
    then show ?thesis using True unfolding r by (auto simp: float_mul_def)
  next
    case False
    let ?Q = "(2::int) ^ nat (- (e + f))"
    have Q: "0 < ?Q" by simp
    have r: "real_of_int (m * n) / real_of_int ?Q = ?v"
      unfolding v using False by (simp add: powi_two_neg)
    from float_of_ratio_error_small [OF mn Q] lo hi obtain k g where
      "float_of_ratio (m * n) ?Q = Finite k g"
      "\<bar>real_of_int k * 2 powi g - real_of_int (m * n) / real_of_int ?Q\<bar>
         \<le> real_of_int (m * n) / real_of_int ?Q * (1 / 2 ^ 53)"
      unfolding r by auto
    then show ?thesis using False unfolding r by (auto simp: float_mul_def)
  qed
qed

lemma py_round_error:
  "\<exists>r. py_round (Finite m e) = Inr r \<and> \<bar>real_of_int r - real_of_int m * 2 powi e\<bar> \<le> 1 / 2"
proof (cases "0 \<le> e")
  case True
  then have pw: "(2::real) powi e = 2 ^ nat e"
    by (rule power_int_nonneg_exp)
  have "\<bar>real_of_int (m * 2 ^ nat e) - real_of_int m * 2 powi e\<bar> \<le> 1 / 2"
    unfolding pw by simp
  with True show ?thesis by (simp add: py_round_def)
next
  case False
  have "(0::int) < 2 ^ nat (- e)" by simp
  from round_half_even_error [OF this, of m]
  have "\<bar>real_of_int (round_half_even m (2 ^ nat (- e)))
          - real_of_int m / real_of_int (2 ^ nat (- e))\<bar> \<le> 1 / 2" .
  moreover have "real_of_int m / real_of_int (2 ^ nat (- e)) = real_of_int m * 2 powi e"
    using False by (simp add: powi_two_neg)
  ultimately have "\<bar>real_of_int (round_half_even m (2 ^ nat (- e)))
          - real_of_int m * 2 powi e\<bar> \<le> 1 / 2"
    by (simp only:)
  with False show ?thesis by (simp add: py_round_def)
qed


lemma scaled_height_zero:
  assumes "0 < w" and "w < 2 ^ 24" and "0 < iw" and "iw < 2 ^ 24"
  shows "scaled_height 0 w iw = Inr 1 \<and> spec_scaled_height 0 w iw = 1"
proof -
  from int_truediv_error [OF assms] obtain m e where q: "int_truediv w iw = Inr (Finite m e)"
    by blast
  have z: "float_of_ratio 0 1 = Finite 0 0"
    by (simp add: float_of_ratio_def)
  have f: "float_mul (Finite 0 0) (Finite m e) = Finite 0 0"
    by (simp add: float_mul_def float_of_ratio_def)
  have "scaled_height 0 w iw = Inr 1"
    by (simp add: scaled_height_def q int_mul_float_def float_of_int_def z f py_round_def)
  moreover have "spec_scaled_height 0 w iw = 1"
    using assms(3) by (simp add: spec_scaled_height_def round_half_even_def)
  ultimately show ?thesis by simp
qed

lemma scaled_height_float:
  assumes h: "0 < h" "h < 2 ^ 24" and w: "0 < w" "w < 2 ^ 24" and iw: "0 < iw" "iw < 2 ^ 24"
  shows "\<exists>r0 X. scaled_height h w iw = Inr (max 1 r0) \<and> \<bar>real_of_int r0 - X\<bar> \<le> 1 / 2
           \<and> \<bar>X - real_of_int (h * w) / real_of_int iw\<bar> \<le> 5 / 32 / real_of_int iw"
proof -
  define H where "H = real_of_int h"
  define x where "x = real_of_int w / real_of_int iw"
  define u where "u = (1::real) / 2 ^ 53"
  have u: "0 \<le> u" "3 * u \<le> 1" by (simp_all add: u_def)
  have H1: "1 \<le> H" using h(1) by (simp add: H_def)
  have "real_of_int h < real_of_int (2 ^ 24)" using h(2) by (simp only: of_int_less_iff)
  then have H2: "H < 2 ^ 24" by (simp add: H_def)
  have w1: "1 \<le> real_of_int w" and i1: "1 \<le> real_of_int iw" using w iw by simp_all
  have "real_of_int w < real_of_int (2 ^ 24)" using w(2) by (simp only: of_int_less_iff)
  then have w2: "real_of_int w < 2 ^ 24" by simp
  have "real_of_int iw < real_of_int (2 ^ 24)" using iw(2) by (simp only: of_int_less_iff)
  then have i2: "real_of_int iw < 2 ^ 24" by simp
  have "real_of_int iw \<le> 2 ^ 24 * real_of_int w" using i2 w1 by simp
  then have x1: "1 / 2 ^ 24 \<le> x"
    using i1 by (simp add: x_def field_simps)
  have "real_of_int w \<le> 2 ^ 24 * real_of_int iw" using w2 i1 by simp
  then have x2: "x \<le> 2 ^ 24"
    using i1 by (simp add: x_def field_simps)
  have xp: "0 \<le> x" using x1 by simp
  from int_truediv_error [OF w iw] obtain m1 e1 where
    q: "int_truediv w iw = Inr (Finite m1 e1)" and m1: "0 < m1"
    and b: "\<bar>real_of_int m1 * 2 powi e1 - x\<bar> \<le> x * u"
    unfolding x_def u_def by blast
  from float_of_int_error [OF h] obtain mh eh where
    fh: "float_of_int h = Inr (Finite mh eh)" and mh: "0 < mh"
    and a: "\<bar>real_of_int mh * 2 powi eh - H\<bar> \<le> H * u"
    unfolding H_def u_def by blast
  define vh where "vh = real_of_int mh * 2 powi eh"
  define v1 where "v1 = real_of_int m1 * 2 powi e1"
  have u2: "u \<le> 1 / 2" by (simp add: u_def)
  have "H * u \<le> H * (1 / 2)" using u2 H1 by (intro mult_left_mono) simp_all
  with a have vhl: "H / 2 \<le> vh" and vhu: "vh \<le> 2 * H" unfolding vh_def by linarith+
  have "x * u \<le> x * (1 / 2)" using u2 xp by (intro mult_left_mono) simp_all
  with b have v1l: "x / 2 \<le> v1" and v1u: "v1 \<le> 2 * x" unfolding v1_def by linarith+
  have vhp: "0 \<le> vh" using vhl H1 by linarith
  have v1p: "0 \<le> v1" using v1l xp by linarith
  have "(1 / 2) * (1 / 2 ^ 25) \<le> vh * v1"
  proof (rule mult_mono)
    show "1 / 2 \<le> vh" using vhl H1 by linarith
    show "1 / 2 ^ 25 \<le> v1" using v1l x1 by simp
    show "0 \<le> vh" by (rule vhp)
    show "(0::real) \<le> 1 / 2 ^ 25" by simp
  qed
  then have lo: "1 / 2 ^ 60 \<le> vh * v1" by simp
  have "vh * v1 \<le> 2 ^ 25 * 2 ^ 25"
  proof (rule mult_mono)
    show "vh \<le> 2 ^ 25" using vhu H2 by simp
    show "v1 \<le> 2 ^ 25" using v1u x2 by simp
    show "(0::real) \<le> 2 ^ 25" by simp
    show "0 \<le> v1" by (rule v1p)
  qed
  then have hi: "vh * v1 < 2 ^ 60" by simp
  from float_mul_error [OF mh m1, of eh e1] lo hi obtain k g where
    fm: "float_mul (Finite mh eh) (Finite m1 e1) = Finite k g"
    and c: "\<bar>real_of_int k * 2 powi g - vh * v1\<bar> \<le> vh * v1 * u"
    unfolding vh_def v1_def u_def by blast
  define X where "X = real_of_int k * 2 powi g"
  from py_round_error [of k g] obtain r0 where
    pr: "py_round (Finite k g) = Inr r0" and d: "\<bar>real_of_int r0 - X\<bar> \<le> 1 / 2"
    unfolding X_def by blast
  have Hp: "0 \<le> H" using H1 by simp
  have e: "\<bar>X - H * x\<bar> \<le> 5 * (H * x * u)"
    using product_error [OF u Hp xp] a b c unfolding vh_def v1_def X_def by blast
  have Hx: "H * x = real_of_int (h * w) / real_of_int iw"
    by (simp add: H_def x_def)
  have "H * real_of_int w \<le> 2 ^ 24 * 2 ^ 24"
    using H2 w2 Hp w1 by (intro mult_mono) simp_all
  then have "H * real_of_int w * u \<le> 2 ^ 24 * 2 ^ 24 * u"
    using u(1) by (rule mult_right_mono)
  then have "5 * (H * real_of_int w * u) \<le> 5 / 32" by (simp add: u_def)
  then have "5 * (H * real_of_int w * u) / real_of_int iw \<le> 5 / 32 / real_of_int iw"
    using i1 by (intro divide_right_mono) simp_all
  moreover have "5 * (H * x * u) = 5 * (H * real_of_int w * u) / real_of_int iw"
    by (simp add: x_def)
  ultimately have "5 * (H * x * u) \<le> 5 / 32 / real_of_int iw" by simp
  with e have e': "\<bar>X - real_of_int (h * w) / real_of_int iw\<bar> \<le> 5 / 32 / real_of_int iw"
    unfolding Hx by linarith
  have "scaled_height h w iw = Inr (max 1 r0)"
    by (simp add: scaled_height_def q int_mul_float_def fh fm pr)
  with d e' show ?thesis by blast
qed

lemma scaled_height_close:
  assumes h: "0 \<le> h" "h < 2 ^ 24" and w: "0 < w" "w < 2 ^ 24" and iw: "0 < iw" "iw < 2 ^ 24"
  shows "\<exists>r. scaled_height h w iw = Inr r \<and> \<bar>r - spec_scaled_height h w iw\<bar> \<le> 1"
proof (cases "h = 0")
  case True
  with scaled_height_zero [OF w iw] show ?thesis by simp
next
  case False
  with h have hp: "0 < h" by simp
  from scaled_height_float [OF hp h(2) w iw] obtain r0 X where
    s: "scaled_height h w iw = Inr (max 1 r0)" and d: "\<bar>real_of_int r0 - X\<bar> \<le> 1 / 2"
    and e: "\<bar>X - real_of_int (h * w) / real_of_int iw\<bar> \<le> 5 / 32 / real_of_int iw"
    by blast
  have i1: "1 \<le> real_of_int iw" using iw by simp
  then have "5 / 32 / real_of_int iw \<le> 5 / 32"
    by (simp add: field_simps)
  with e have e': "\<bar>X - real_of_int (h * w) / real_of_int iw\<bar> \<le> 5 / 32" by linarith
  define s0 where "s0 = round_half_even (h * w) iw"
  from round_half_even_error [OF iw(1), of "h * w"]
  have f: "\<bar>real_of_int s0 - real_of_int (h * w) / real_of_int iw\<bar> \<le> 1 / 2"
    unfolding s0_def .
  from d e' f have "\<bar>real_of_int r0 - real_of_int s0\<bar> < 2" by linarith
  then have "real_of_int \<bar>r0 - s0\<bar> < real_of_int 2" by simp
  then have "\<bar>r0 - s0\<bar> < 2" by (simp only: of_int_less_iff)
  then have close: "\<bar>max 1 r0 - max 1 s0\<bar> \<le> 1" by linarith
  have "spec_scaled_height h w iw = max 1 s0"
    by (simp add: spec_scaled_height_def s0_def)
  with s close show ?thesis by simp
qed

lemma round_half_even_error_strict:
  assumes "0 < d" and "2 * (n mod d) \<noteq> d"
  shows "\<bar>real_of_int (round_half_even n d) - real_of_int n / real_of_int d\<bar>
           \<le> 1 / 2 - 1 / (2 * real_of_int d)"
proof -
  let ?f = "n div d" and ?r = "n mod d"
  have n: "real_of_int n = real_of_int ?f * real_of_int d + real_of_int ?r"
    by (metis mult.commute of_int_add of_int_mult mult_div_mod_eq)
  have dp: "0 < real_of_int d" using assms(1) by simp
  have q: "real_of_int n / real_of_int d = real_of_int ?f + real_of_int ?r / real_of_int d"
    using assms(1) by (simp add: n field_simps)
  have r: "0 \<le> ?r" "?r < d" using assms(1) by simp_all
  show ?thesis
  proof (cases "2 * ?r < d")
    case True
    then have "2 * ?r + 1 \<le> d" by simp
    then have "real_of_int (2 * ?r + 1) \<le> real_of_int d" by (simp only: of_int_le_iff)
    then have "2 * real_of_int ?r + 1 \<le> real_of_int d" by simp
    then have "real_of_int ?r / real_of_int d \<le> 1 / 2 - 1 / (2 * real_of_int d)"
      using dp by (simp add: field_simps)
    moreover have "0 \<le> real_of_int ?r / real_of_int d" using r dp by simp
    moreover have "round_half_even n d = ?f"
      using True by (simp add: round_half_even_def Let_def)
    ultimately show ?thesis unfolding q by simp
  next
    case False
    with assms(2) have gt: "d < 2 * ?r" by simp
    then have "d + 1 \<le> 2 * ?r" by simp
    then have "real_of_int (d + 1) \<le> real_of_int (2 * ?r)" by (simp only: of_int_le_iff)
    then have "real_of_int d + 1 \<le> 2 * real_of_int ?r" by simp
    then have "(real_of_int d + 1) / (2 * real_of_int d)
                 \<le> (2 * real_of_int ?r) / (2 * real_of_int d)"
      using dp by (intro divide_right_mono) simp_all
    moreover have "(real_of_int d + 1) / (2 * real_of_int d) = 1 / 2 + 1 / (2 * real_of_int d)"
      using dp by (simp add: add_divide_distrib)
    moreover have "(2 * real_of_int ?r) / (2 * real_of_int d) = real_of_int ?r / real_of_int d"
      by simp
    ultimately have a: "1 / 2 + 1 / (2 * real_of_int d) \<le> real_of_int ?r / real_of_int d"
      by (simp only:)
    have "?r \<le> d" using r(2) by simp
    then have b: "real_of_int ?r / real_of_int d \<le> 1" using dp by simp
    have "round_half_even n d = ?f + 1"
      using False gt by (simp add: round_half_even_def Let_def)
    then show ?thesis unfolding q using a b by simp
  qed
qed

lemma scaled_height_exact:
  assumes h: "0 \<le> h" "h < 2 ^ 24" and w: "0 < w" "w < 2 ^ 24" and iw: "0 < iw" "iw < 2 ^ 24"
    and tie: "2 * ((h * w) mod iw) \<noteq> iw"
  shows "scaled_height h w iw = Inr (spec_scaled_height h w iw)"
proof (cases "h = 0")
  case True
  with scaled_height_zero [OF w iw] show ?thesis by simp
next
  case False
  with h have hp: "0 < h" by simp
  from scaled_height_float [OF hp h(2) w iw] obtain r0 X where
    s: "scaled_height h w iw = Inr (max 1 r0)" and d: "\<bar>real_of_int r0 - X\<bar> \<le> 1 / 2"
    and e: "\<bar>X - real_of_int (h * w) / real_of_int iw\<bar> \<le> 5 / 32 / real_of_int iw"
    by blast
  define s0 where "s0 = round_half_even (h * w) iw"
  from round_half_even_error_strict [OF iw(1) tie]
  have f: "\<bar>real_of_int s0 - real_of_int (h * w) / real_of_int iw\<bar>
             \<le> 1 / 2 - 1 / (2 * real_of_int iw)"
    unfolding s0_def .
  have ip: "0 < real_of_int iw" using iw(1) by simp
  have "5 / 32 / real_of_int iw < 1 / (2 * real_of_int iw)"
    using ip by (simp add: field_simps)
  with d e f have "\<bar>real_of_int r0 - real_of_int s0\<bar> < 1" by linarith
  then have "real_of_int \<bar>r0 - s0\<bar> < real_of_int 1" by simp
  then have "\<bar>r0 - s0\<bar> < 1" by (simp only: of_int_less_iff)
  then have "r0 = s0" by simp
  then show ?thesis by (simp add: s spec_scaled_height_def s0_def)
qed

subsection \<open>Resizing\<close>

lemma scaled_height_143_150_220: "scaled_height 143 150 220 = Inr 97"
  by code_simp

text \<open>The example of the specification, a source of 1920 by 1080 pixels at the widths 640
  and 960: here the script and the exact quotient agree.\<close>

lemma scaled_height_example:
  "scaled_height 1080 640 1920 = Inr 360 \<and> spec_scaled_height 1080 640 1920 = 360
   \<and> scaled_height 1080 960 1920 = Inr 540 \<and> spec_scaled_height 1080 960 1920 = 540"
  by code_simp

text \<open>
  C7. For every bitmap and every requested width, when the bitmap's width already equals
  the requested width, \<open>resize_to_width\<close> returns that very bitmap: no resampling, no
  error, whatever Pillow's resampler would do.
\<close>

theorem resize_to_width_same_width:
  "width img = w \<Longrightarrow> resize_to_width E img w = Inr img"
  by (simp add: resize_to_width_def)

theorem resize_to_width_same_width_witness:
  "width img0 = 220 \<and> resize_to_width env0 img0 220 = Inr img0"
  using resize_to_width_same_width [of img0 220 env0] by (simp add: img0_def)

text \<open>
  C2, as stated, fails: a bitmap of 220 by 143 pixels resized to the width 150 gets the
  height 97, whereas 143 * 150 / 220 is exactly 97.5 and rounds to 98 (to the even
  neighbour and upwards alike). The script divides first: 150 / 220 is rounded to a float
  just below 15 / 22, and the product with 143 falls just below 97.5.
\<close>

theorem resize_height_counterexample:
  "resize_to_width env0 img0 150 = Inr (img0\<lparr>width := 150, height := 97, raster := [7]\<rparr>)
   \<and> spec_scaled_height (height img0) 150 (width img0) = 98"
proof -
  have "resize_to_width env0 img0 150 = Inr (img0\<lparr>width := 150, height := 97, raster := [7]\<rparr>)"
    by (simp add: resize_to_width_def scaled_height_143_150_220 resize_def env0_def img0_def)
  moreover have "spec_scaled_height (height img0) 150 (width img0) = 98"
    by (simp add: spec_scaled_height_def round_half_even_def img0_def)
  ultimately show ?thesis by simp
qed

text \<open>
  C2, amended. When the bitmap's width \<open>W\<close> differs from the requested width \<open>w\<close> and
  the resize succeeds, the derivative has the width \<open>w\<close> exactly, and its height is the
  value of line 72 in float arithmetic, at least 1. For sizes below \<open>2 ^ 24\<close> that height
  is \<^verbatim>\<open>round(H * w / W)\<close> with a floor of 1 whenever \<open>H * w / W\<close> is not exactly
  half-way between two integers, and differs from it by at most one pixel when it is.
\<close>

theorem resize_to_width_size:
  assumes "width img \<noteq> w" and "resize_to_width E img w = Inr img'"
  shows "width img' = w \<and> scaled_height (height img) w (width img) = Inr (height img')
         \<and> 1 \<le> height img'
         \<and> (0 \<le> height img \<and> height img < 2 ^ 24 \<and> 0 < w \<and> w < 2 ^ 24
              \<and> 0 < width img \<and> width img < 2 ^ 24 \<longrightarrow>
              \<bar>height img' - spec_scaled_height (height img) w (width img)\<bar> \<le> 1
              \<and> (2 * ((height img * w) mod width img) \<noteq> width img \<longrightarrow>
                    height img' = spec_scaled_height (height img) w (width img)))"
proof -
  from assms have a: "width img' = w"
    and b: "scaled_height (height img) w (width img) = Inr (height img')"
    and c: "1 \<le> height img'"
    by (auto simp: resize_to_width_def resize_def scaled_height_def split: sum.splits if_splits)
  have d: "0 \<le> height img \<and> height img < 2 ^ 24 \<and> 0 < w \<and> w < 2 ^ 24
              \<and> 0 < width img \<and> width img < 2 ^ 24 \<longrightarrow>
              \<bar>height img' - spec_scaled_height (height img) w (width img)\<bar> \<le> 1
              \<and> (2 * ((height img * w) mod width img) \<noteq> width img \<longrightarrow>
                    height img' = spec_scaled_height (height img) w (width img))"
  proof (intro impI conjI)
    assume r: "0 \<le> height img \<and> height img < 2 ^ 24 \<and> 0 < w \<and> w < 2 ^ 24
              \<and> 0 < width img \<and> width img < 2 ^ 24"
    then show "\<bar>height img' - spec_scaled_height (height img) w (width img)\<bar> \<le> 1"
      using scaled_height_close [of "height img" w "width img"] b by auto
    assume "2 * ((height img * w) mod width img) \<noteq> width img"
    with r show "height img' = spec_scaled_height (height img) w (width img)"
      using scaled_height_exact [of "height img" w "width img"] b by auto
  qed
  from a b c d show ?thesis by (intro conjI)
qed

text \<open>The example of the specification: 1920 by 1080 pixels at the width 640.\<close>

theorem resize_to_width_size_witness:
  "width img_hd \<noteq> 640
   \<and> resize_to_width env0 img_hd 640
       = Inr (img_hd\<lparr>width := 640, height := 360, raster := [7]\<rparr>)
   \<and> 0 \<le> height img_hd \<and> height img_hd < 2 ^ 24 \<and> (0::int) < 640 \<and> (640::int) < 2 ^ 24
   \<and> 0 < width img_hd \<and> width img_hd < 2 ^ 24
   \<and> 2 * ((height img_hd * 640) mod width img_hd) \<noteq> width img_hd
   \<and> scaled_height (height img_hd) 640 (width img_hd) = Inr 360
   \<and> spec_scaled_height (height img_hd) 640 (width img_hd) = 360"
proof -
  have w: "width img_hd \<noteq> 640"
    by (simp add: img_hd_def)
  have s: "scaled_height 1080 640 1920 = Inr 360"
    using scaled_height_example by simp
  have r: "resize_to_width env0 img_hd 640
             = Inr (img_hd\<lparr>width := 640, height := 360, raster := [7]\<rparr>)"
    by (simp add: resize_to_width_def s resize_def env0_def img_hd_def)
  have g: "0 \<le> height img_hd \<and> height img_hd < 2 ^ 24 \<and> (0::int) < 640 \<and> (640::int) < 2 ^ 24
             \<and> 0 < width img_hd \<and> width img_hd < 2 ^ 24"
    by (simp add: img_hd_def)
  have t: "2 * ((height img_hd * 640) mod width img_hd) \<noteq> width img_hd"
    by (simp add: img_hd_def)
  note x = resize_to_width_size [OF w r]
  from x g t have "height (img_hd\<lparr>width := 640, height := 360, raster := [7]\<rparr>)
                     = spec_scaled_height (height img_hd) 640 (width img_hd)"
    by blast
  then have e: "spec_scaled_height (height img_hd) 640 (width img_hd) = 360"
    by simp
  have f: "scaled_height (height img_hd) 640 (width img_hd) = Inr 360"
    using x by simp
  from w r g t f e show ?thesis
    by (intro conjI) simp_all
qed

subsection \<open>Normalising the mode\<close>

text \<open>
  C8, as stated, fails: a CIELAB bitmap has the bands \<^verbatim>\<open>L\<close>, \<^verbatim>\<open>A\<close> and \<^verbatim>\<open>B\<close>, none
  of them an alpha band, and the pipeline asks for its conversion to \<^verbatim>\<open>RGBA\<close>, not to
  \<^verbatim>\<open>RGB\<close>: the widths loop runs on a bitmap of the mode \<^verbatim>\<open>RGBA\<close>.
\<close>

theorem lab_counterexample:
  "Image_open env_lab blob0 = Inr img_lab \<and> Image_load env_lab img_lab = Inr img_lab
   \<and> mode img_lab = ''LAB'' \<and> getbands env_lab img_lab = [''L'', ''A'', ''B'']
   \<and> \<not> spec_alpha_mode (mode img_lab)
   \<and> normalize_mode env_lab img_lab = convert env_lab img_lab ''RGBA''
   \<and> webp_pipeline env_lab job_hero blob0 world0 =
       widths_loop env_lab job_hero (img_lab\<lparr>mode := ''RGBA'', raster := [6, 7, 8]\<rparr>)
         (widths job_hero) world0"
proof -
  have a: "Image_open env_lab blob0 = Inr img_lab" and b: "Image_load env_lab img_lab = Inr img_lab"
    by (simp_all add: env_lab_def env0_def)
  have m: "mode img_lab = ''LAB''"
    by (simp add: img_lab_def)
  have g: "getbands env_lab img_lab = [''L'', ''A'', ''B'']"
    by (simp add: getbands_def m env_lab_def env0_def pillow_bands_def)
  have n: "\<not> spec_alpha_mode (mode img_lab)"
    by (simp add: m spec_alpha_mode_def)
  have c: "normalize_mode env_lab img_lab = convert env_lab img_lab ''RGBA''"
    by (simp add: normalize_mode_def g m)
  have r: "convert env_lab img_lab ''RGBA'' = Inr (img_lab\<lparr>mode := ''RGBA'', raster := [6, 7, 8]\<rparr>)"
    by (simp add: convert_def env_lab_def env0_def img_lab_def)
  have p: "webp_pipeline env_lab job_hero blob0 world0 =
       widths_loop env_lab job_hero (img_lab\<lparr>mode := ''RGBA'', raster := [6, 7, 8]\<rparr>)
         (widths job_hero) world0"
    by (simp add: webp_pipeline_def a b c r)
  from a b m g n c p show ?thesis
    by (intro conjI)
qed

lemma pillow_bands_A:
  "''A'' \<in> set (pillow_bands m) \<longleftrightarrow> m \<in> {''RGBA'', ''LA'', ''PA'', ''LAB''}"
  by (simp add: pillow_bands_def)

text \<open>
  C8, amended. In the WebP pipeline, once the payload is decoded, a bitmap whose mode is
  \<^verbatim>\<open>RGB\<close> or \<^verbatim>\<open>RGBA\<close> goes to the widths loop as it is; any other bitmap is converted
  first, to \<^verbatim>\<open>RGBA\<close> when its bands include a band named \<^verbatim>\<open>A\<close> and to \<^verbatim>\<open>RGB\<close>
  otherwise, and the loop runs on the converted bitmap (a failing conversion ends the job).
  With Pillow's table of modes the band \<^verbatim>\<open>A\<close> is in the modes \<^verbatim>\<open>RGBA\<close>, \<^verbatim>\<open>LA\<close>,
  \<^verbatim>\<open>PA\<close> and \<^verbatim>\<open>LAB\<close> and in no other, and having it is having an alpha band for every
  mode but \<^verbatim>\<open>LAB\<close>, \<^verbatim>\<open>RGBa\<close> and \<^verbatim>\<open>La\<close>.
\<close>

theorem webp_pipeline_normalizes:
  assumes "Image_open E blob = Inr im0" and "Image_load E im0 = Inr im"
  shows "webp_pipeline E job blob w =
           (if mode im = ''RGB'' \<or> mode im = ''RGBA'' then widths_loop E job im (widths job) w
            else if ''A'' \<in> set (getbands E im)
            then (case convert_raster E im ''RGBA'' of
                    Inl err \<Rightarrow> (Inl err, w)
                  | Inr px \<Rightarrow>
                      widths_loop E job (im\<lparr>mode := ''RGBA'', raster := px\<rparr>) (widths job) w)
            else (case convert_raster E im ''RGB'' of
                    Inl err \<Rightarrow> (Inl err, w)
                  | Inr px \<Rightarrow>
                      widths_loop E job (im\<lparr>mode := ''RGB'', raster := px\<rparr>) (widths job) w))
         \<and> (mode_bands E = pillow_bands \<longrightarrow>
              (''A'' \<in> set (getbands E im) \<longleftrightarrow> mode im \<in> {''RGBA'', ''LA'', ''PA'', ''LAB''})
              \<and> (mode im \<notin> {''LAB'', ''RGBa'', ''La''} \<longrightarrow>
                   (''A'' \<in> set (getbands E im) \<longleftrightarrow> spec_alpha_mode (mode im))))"
proof (rule conjI)
  show "webp_pipeline E job blob w =
           (if mode im = ''RGB'' \<or> mode im = ''RGBA'' then widths_loop E job im (widths job) w
            else if ''A'' \<in> set (getbands E im)
            then (case convert_raster E im ''RGBA'' of
                    Inl err \<Rightarrow> (Inl err, w)
                  | Inr px \<Rightarrow>
                      widths_loop E job (im\<lparr>mode := ''RGBA'', raster := px\<rparr>) (widths job) w)
            else (case convert_raster E im ''RGB'' of
                    Inl err \<Rightarrow> (Inl err, w)
                  | Inr px \<Rightarrow>
                      widths_loop E job (im\<lparr>mode := ''RGB'', raster := px\<rparr>) (widths job) w))"
    using assms
    by (simp add: webp_pipeline_def normalize_mode_def convert_def split: sum.splits)
next
  show "mode_bands E = pillow_bands \<longrightarrow>
              (''A'' \<in> set (getbands E im) \<longleftrightarrow> mode im \<in> {''RGBA'', ''LA'', ''PA'', ''LAB''})
              \<and> (mode im \<notin> {''LAB'', ''RGBa'', ''La''} \<longrightarrow>
                   (''A'' \<in> set (getbands E im) \<longleftrightarrow> spec_alpha_mode (mode im)))"
  proof (rule impI)
    assume t: "mode_bands E = pillow_bands"
    have g: "''A'' \<in> set (getbands E im) \<longleftrightarrow> mode im \<in> {''RGBA'', ''LA'', ''PA'', ''LAB''}"
      unfolding getbands_def t by (rule pillow_bands_A)
    show "(''A'' \<in> set (getbands E im) \<longleftrightarrow> mode im \<in> {''RGBA'', ''LA'', ''PA'', ''LAB''})
              \<and> (mode im \<notin> {''LAB'', ''RGBa'', ''La''} \<longrightarrow>
                   (''A'' \<in> set (getbands E im) \<longleftrightarrow> spec_alpha_mode (mode im)))"
      unfolding g spec_alpha_mode_def by auto
  qed
qed

text \<open>A grey bitmap with an alpha band goes to \<^verbatim>\<open>RGBA\<close>, a palette bitmap to
  \<^verbatim>\<open>RGB\<close>.\<close>

theorem webp_pipeline_normalizes_witness:
  "Image_open env_gray_alpha blob0 = Inr img_gray_alpha
   \<and> Image_load env_gray_alpha img_gray_alpha = Inr img_gray_alpha
   \<and> webp_pipeline env_gray_alpha job_hero blob0 world0 =
       widths_loop env_gray_alpha job_hero (img_gray_alpha\<lparr>mode := ''RGBA'', raster := [9, 10]\<rparr>)
         (widths job_hero) world0
   \<and> mode_bands env_gray_alpha = pillow_bands
   \<and> ''A'' \<in> set (getbands env_gray_alpha img_gray_alpha)
   \<and> spec_alpha_mode (mode img_gray_alpha)
   \<and> Image_open env_palette blob0 = Inr img_palette
   \<and> Image_load env_palette img_palette = Inr img_palette
   \<and> webp_pipeline env_palette job_hero blob0 world0 =
       widths_loop env_palette job_hero (img_palette\<lparr>mode := ''RGB'', raster := [4, 5]\<rparr>)
         (widths job_hero) world0
   \<and> mode_bands env_palette = pillow_bands
   \<and> ''A'' \<notin> set (getbands env_palette img_palette)
   \<and> \<not> spec_alpha_mode (mode img_palette)"
proof -
  have a: "Image_open env_gray_alpha blob0 = Inr img_gray_alpha"
    and b: "Image_load env_gray_alpha img_gray_alpha = Inr img_gray_alpha"
    and t: "mode_bands env_gray_alpha = pillow_bands"
    by (simp_all add: env_gray_alpha_def env0_def)
  have m: "mode img_gray_alpha = ''LA''"
    by (simp add: img_gray_alpha_def)
  note n = webp_pipeline_normalizes [OF a b, of job_hero world0]
  note n2 = n [THEN conjunct2, rule_format, OF t]
  have g: "''A'' \<in> set (getbands env_gray_alpha img_gray_alpha)"
    using n2 [THEN conjunct1] by (simp add: m)
  have s: "spec_alpha_mode (mode img_gray_alpha)"
    using n2 [THEN conjunct2] g by (simp add: m)
  have c: "convert_raster env_gray_alpha img_gray_alpha ''RGBA'' = Inr [9, 10]"
    by (simp add: env_gray_alpha_def env0_def img_gray_alpha_def)
  have p: "webp_pipeline env_gray_alpha job_hero blob0 world0 =
       widths_loop env_gray_alpha job_hero (img_gray_alpha\<lparr>mode := ''RGBA'', raster := [9, 10]\<rparr>)
         (widths job_hero) world0"
    using n [THEN conjunct1] g by (simp add: m c)
  have a': "Image_open env_palette blob0 = Inr img_palette"
    and b': "Image_load env_palette img_palette = Inr img_palette"
    and t': "mode_bands env_palette = pillow_bands"
    by (simp_all add: env_palette_def env0_def)
  have m': "mode img_palette = ''P''"
    by (simp add: img_palette_def)
  note k = webp_pipeline_normalizes [OF a' b', of job_hero world0]
  note k2 = k [THEN conjunct2, rule_format, OF t']
  have g': "''A'' \<notin> set (getbands env_palette img_palette)"
    using k2 [THEN conjunct1] by (simp add: m')
  have s': "\<not> spec_alpha_mode (mode img_palette)"
    using k2 [THEN conjunct2] g' by (simp add: m')
  have c': "convert_raster env_palette img_palette ''RGB'' = Inr [4, 5]"
    by (simp add: env_palette_def env0_def img_palette_def)
  have p': "webp_pipeline env_palette job_hero blob0 world0 =
       widths_loop env_palette job_hero (img_palette\<lparr>mode := ''RGB'', raster := [4, 5]\<rparr>)
         (widths job_hero) world0"
    using k [THEN conjunct1] g' by (simp add: m' c')
  from a b p t g s a' b' p' t' g' s' show ?thesis
    by (intro conjI)
qed

subsection \<open>Strings and paths\<close>

lemma str_split_not_Nil: "str_split c s \<noteq> []"
  by (induction s) (auto split: list.splits)

lemma hd_str_split: "hd (str_split c s) = takeWhile (\<lambda>x. x \<noteq> c) s"
  by (induction s) (auto split: list.splits simp: str_split_not_Nil)

lemma str_split_no_sep: "c \<notin> set s \<Longrightarrow> str_split c s = [s]"
  by (induction s) auto

lemma str_split_append_sep: "str_split c (u @ c # v) = str_split c u @ str_split c v"
proof (induction u)
  case Nil
  show ?case by simp
next
  case (Cons x u)
  show ?case
  proof (cases "x = c")
    case True
    with Cons show ?thesis by simp
  next
    case False
    obtain y ys where s: "str_split c u = y # ys"
      using str_split_not_Nil [of c u] by (cases "str_split c u") auto
    with Cons False show ?thesis by simp
  qed
qed

lemma str_split_prefix_piece:
  "c \<notin> set t \<Longrightarrow> str_split c (t @ s) = (t @ hd (str_split c s)) # tl (str_split c s)"
proof (induction t)
  case Nil
  show ?case using str_split_not_Nil [of c s] by simp
next
  case (Cons x t)
  then show ?case by auto
qed

lemma last_str_split: "last (str_split c s) = spec_after_last c s"
proof (cases "c \<in> set s")
  case False
  then have "\<forall>x\<in>set (rev s). x \<noteq> c"
    by auto
  then have "takeWhile (\<lambda>x. x \<noteq> c) (rev s) = rev s"
    by (rule takeWhile_eq_all_conv [THEN iffD2])
  with False show ?thesis
    by (simp add: str_split_no_sep spec_after_last_def del: takeWhile_eq_all_conv)
next
  case True
  then obtain u v where s: "s = u @ c # v" and v: "c \<notin> set v"
    by (meson split_list_last)
  from v have "takeWhile (\<lambda>x. x \<noteq> c) (rev v @ c # rev u) = rev v"
    by (auto simp: takeWhile_tail)
  with s v show ?thesis
    by (simp add: str_split_append_sep str_split_no_sep spec_after_last_def)
qed

lemma takeWhile_twice:
  "takeWhile P (takeWhile Q xs) = takeWhile (\<lambda>x. Q x \<and> P x) xs"
  by (induction xs) auto

lemma original_ext_eq:
  "original_ext u = lower (spec_after_last (CHR ''.'') (spec_strip_query_fragment u))"
  by (simp add: original_ext_def hd_str_split last_str_split takeWhile_twice
      spec_strip_query_fragment_def)


lemma spec_after_last_append:
  "c \<in> set v \<Longrightarrow> spec_after_last c (u @ v) = spec_after_last c v"
  by (simp add: spec_after_last_def)

lemma spec_after_last_suffix: "\<exists>u. s = u @ spec_after_last c s"
proof -
  have "rev s = takeWhile (\<lambda>x. x \<noteq> c) (rev s) @ dropWhile (\<lambda>x. x \<noteq> c) (rev s)"
    by simp
  then have "s = rev (dropWhile (\<lambda>x. x \<noteq> c) (rev s)) @ rev (takeWhile (\<lambda>x. x \<noteq> c) (rev s))"
    by (metis rev_append rev_rev_ident)
  then show ?thesis unfolding spec_after_last_def by blast
qed

lemma extension_refines:
  assumes "spec_url_path_extension u = Some ext"
  shows "original_ext u = lower ext"
proof -
  let ?s = "spec_strip_query_fragment u"
  let ?seg = "spec_after_last (CHR ''/'') ?s"
  from assms have dot: "CHR ''.'' \<in> set ?seg" and ext: "ext = spec_after_last (CHR ''.'') ?seg"
    by (auto simp: spec_url_path_extension_def Let_def split: if_splits)
  obtain v where "?s = v @ ?seg"
    using spec_after_last_suffix by blast
  then have "spec_after_last (CHR ''.'') ?s = spec_after_last (CHR ''.'') ?seg"
    using spec_after_last_append [OF dot] by metis
  with ext show ?thesis by (simp add: original_ext_eq)
qed


lemma of_char_lower_char:
  "(of_char (lower_char c) :: nat) =
     (if (65 \<le> (of_char c :: nat) \<and> (of_char c :: nat) \<le> 90)
         \<or> (192 \<le> (of_char c :: nat) \<and> (of_char c :: nat) \<le> 222 \<and> (of_char c :: nat) \<noteq> 215)
      then of_char c + 32 else of_char c)"
  by (auto simp: lower_char_def Let_def)

lemma lower_char_slash: "lower_char c = CHR ''/'' \<longleftrightarrow> c = CHR ''/''"
proof -
  have "lower_char c = CHR ''/'' \<longleftrightarrow> (of_char (lower_char c) :: nat) = of_char (CHR ''/'')"
    by (simp only: of_char_eq_iff)
  also have "\<dots> \<longleftrightarrow> (of_char c :: nat) = of_char (CHR ''/'')"
    by (auto simp: of_char_lower_char)
  also have "\<dots> \<longleftrightarrow> c = CHR ''/''"
    by (simp only: of_char_eq_iff)
  finally show ?thesis .
qed

lemma lower_slash: "CHR ''/'' \<in> set (lower s) \<longleftrightarrow> CHR ''/'' \<in> set s"
  unfolding lower_def using lower_char_slash by (metis (no_types, lifting) image_iff set_map)

lemma lower_append: "lower (a @ b) = lower a @ lower b"
  by (simp add: lower_def)

lemma lower_Cons_slash: "lower (CHR ''/'' # s) = CHR ''/'' # lower s"
  using lower_char_slash [of "CHR ''/''"] by (simp add: lower_def)

lemma lower_eq_Nil: "lower s = [] \<longleftrightarrow> s = []"
  by (simp add: lower_def)

lemma lower_length: "length (lower s) = length s"
  by (simp add: lower_def)


lemma components_append_sep:
  "path_components (u @ CHR ''/'' # v) = path_components u @ path_components v"
  by (simp add: path_components_def str_split_append_sep)

lemma components_base:
  "\<exists>P t. CHR ''/'' \<notin> set t \<and> (\<forall>s. path_components (b @ s) = P @ path_components (t @ s))"
proof (cases "CHR ''/'' \<in> set b")
  case False
  then have "CHR ''/'' \<notin> set b \<and> (\<forall>s. path_components (b @ s) = [] @ path_components (b @ s))"
    by simp
  then show ?thesis by blast
next
  case True
  then obtain u v where b: "b = u @ CHR ''/'' # v" and v: "CHR ''/'' \<notin> set v"
    by (meson split_list_last)
  have "\<forall>s. path_components (b @ s) = path_components u @ path_components (v @ s)"
    using components_append_sep [of u] by (simp add: b)
  with v show ?thesis by blast
qed

lemma components_first:
  assumes "CHR ''/'' \<notin> set t" and "t @ takeWhile (\<lambda>x. x \<noteq> CHR ''/'') s \<noteq> []"
    and "t @ takeWhile (\<lambda>x. x \<noteq> CHR ''/'') s \<noteq> ''.''"
  shows "path_components (t @ s) =
           (t @ takeWhile (\<lambda>x. x \<noteq> CHR ''/'') s)
             # filter (\<lambda>c. c \<noteq> [] \<and> c \<noteq> ''.'') (tl (str_split (CHR ''/'') s))"
  using assms by (simp add: path_components_def str_split_prefix_piece hd_str_split)

lemma digit_char_not_slash: "d < 10 \<Longrightarrow> digit_char d \<noteq> CHR ''/''"
proof -
  assume "d < 10"
  then have "digit_char d \<in> set ''0123456789''"
    unfolding digit_char_def by (intro nth_mem) simp
  then show ?thesis by auto
qed

lemma str_nat_no_slash: "CHR ''/'' \<notin> set (str_nat n)"
proof (induction n rule: str_nat.induct)
  case (1 n)
  show ?case
  proof (cases "n < 10")
    case True
    then show ?thesis using digit_char_not_slash [of n] by (subst str_nat.simps) simp
  next
    case False
    have "n mod 10 < 10" by simp
    then have "digit_char (n mod 10) \<noteq> CHR ''/''" by (rule digit_char_not_slash)
    with False 1 show ?thesis by (subst str_nat.simps) simp
  qed
qed

lemma str_int_no_slash: "CHR ''/'' \<notin> set (str_int i)"
  by (simp add: str_int_def str_nat_no_slash)

lemma webp_components:
  assumes "CHR ''/'' \<notin> set t"
  shows "path_components (t @ ''-'' @ str_int x @ ''.webp'') = [t @ ''-'' @ str_int x @ ''.webp'']"
proof -
  have "CHR ''/'' \<notin> set (t @ ''-'' @ str_int x @ ''.webp'')"
    using assms str_int_no_slash by simp
  then have "str_split (CHR ''/'') (t @ ''-'' @ str_int x @ ''.webp'') = [t @ ''-'' @ str_int x @ ''.webp'']"
    by (rule str_split_no_sep)
  moreover have "t @ ''-'' @ str_int x @ ''.webp'' \<noteq> ''.''"
    by (cases t) auto
  ultimately show ?thesis by (simp add: path_components_def)
qed

lemma orig_components:
  assumes "CHR ''/'' \<notin> set t"
  shows "path_components (t @ ''.orig.'' @ e) =
           (t @ ''.orig.'' @ takeWhile (\<lambda>x. x \<noteq> CHR ''/'') e)
             # filter (\<lambda>c. c \<noteq> [] \<and> c \<noteq> ''.'') (tl (str_split (CHR ''/'') e))"
proof -
  have t: "CHR ''/'' \<notin> set (t @ ''.orig.'')"
    using assms by simp
  have n: "(t @ ''.orig.'') @ takeWhile (\<lambda>x. x \<noteq> CHR ''/'') e \<noteq> ''.''"
    by (cases t) auto
  from components_first [OF t _ n] show ?thesis by simp
qed

lemma path_anchor_Nil_iff: "path_anchor s = [] \<longleftrightarrow> s = [] \<or> hd s \<noteq> CHR ''/''"
  by (cases s rule: path_anchor.cases) auto

lemma path_anchor_append:
  assumes "c \<noteq> CHR ''/''" and "d \<noteq> CHR ''/''"
  shows "path_anchor (b @ c # s) = path_anchor (b @ d # t)"
proof (cases b rule: path_anchor.cases)
  case (1 x y z r)
  then show ?thesis by simp
next
  case (2 x y)
  with assms show ?thesis by simp
next
  case (3 x)
  with assms show ?thesis by (cases s; cases t) simp_all
next
  case 4
  have "path_anchor (c # s) = []" "path_anchor (d # t) = []"
    using assms path_anchor_Nil_iff [of "c # s"] path_anchor_Nil_iff [of "d # t"] by simp_all
  with 4 show ?thesis by simp
qed

lemma webp_path_neq_original_path: "webp_path job x \<noteq> original_path job"
proof -
  obtain P t where t: "CHR ''/'' \<notin> set t"
    and P: "\<And>s. path_components (base_name job @ s) = P @ path_components (t @ s)"
    using components_base [of "base_name job"] by blast
  let ?e = "original_ext (url job)"
  have w: "path_components (base_name job @ ''-'' @ str_int x @ ''.webp'')
             = P @ [t @ ''-'' @ str_int x @ ''.webp'']"
    using P webp_components [OF t] by simp
  have o: "path_components (base_name job @ ''.orig.'' @ ?e)
             = P @ (t @ ''.orig.'' @ takeWhile (\<lambda>x. x \<noteq> CHR ''/'') ?e)
                 # filter (\<lambda>c. c \<noteq> [] \<and> c \<noteq> ''.'') (tl (str_split (CHR ''/'') ?e))"
    using P orig_components [OF t] by simp
  have ne: "path_components (base_name job @ ''-'' @ str_int x @ ''.webp'')
             \<noteq> path_components (base_name job @ ''.orig.'' @ ?e)"
    unfolding w o by simp
  have an: "path_anchor (base_name job @ ''-'' @ str_int x @ ''.webp'')
              = path_anchor (base_name job @ ''.orig.'' @ ?e)"
    using path_anchor_append [of "CHR ''-''" "CHR ''.''" "base_name job"] by simp
  show ?thesis
    unfolding webp_path_def original_path_def path_join_def an using ne by auto
qed


lemma of_char_lower_char_dot: "lower_char c = CHR ''.'' \<longleftrightarrow> c = CHR ''.''"
proof -
  have "lower_char c = CHR ''.'' \<longleftrightarrow> (of_char (lower_char c) :: nat) = of_char (CHR ''.'')"
    by (simp only: of_char_eq_iff)
  also have "\<dots> \<longleftrightarrow> (of_char c :: nat) = of_char (CHR ''.'')"
    by (auto simp: of_char_lower_char)
  also have "\<dots> \<longleftrightarrow> c = CHR ''.''"
    by (simp only: of_char_eq_iff)
  finally show ?thesis .
qed

lemma lower_eq_dot: "lower s = ''.'' \<longleftrightarrow> s = ''.''"
  by (cases s) (auto simp: lower_def of_char_lower_char_dot)

subsection \<open>The archive\<close>















text \<open>
  C3, amended. For every job and every payload, when the file system raises no error,
  \<open>save_original\<close> returns the path \<^verbatim>\<open><out_dir>/<base_name>.orig.<ext>\<close> and leaves
  exactly the payload in the file at that path, whatever was there before, every other
  file untouched; \<^verbatim>\<open><ext>\<close> is the lower-cased text after the last dot of the URL
  without query string and fragment, which is the URL's last path extension whenever the
  final path segment has a dot.
\<close>

theorem save_original_archives:
  assumes "mkdir_fault E w (out_dir job) = None"
    and "write_fault E (make_dirs (out_dir job) w) (original_path job) = None"
  shows "save_original E job blob w =
           (Inr (original_path job),
            (make_dirs (out_dir job) w)\<lparr>files := (files w)(original_path job \<mapsto> blob)\<rparr>)
         \<and> (\<forall>ext. spec_url_path_extension (url job) = Some ext \<longrightarrow>
               original_path job
                 = path_join (out_dir job) (base_name job @ ''.orig.'' @ lower ext))"
proof -
  have "save_original E job blob w =
           (Inr (original_path job),
            (make_dirs (out_dir job) w)\<lparr>files := (files w)(original_path job \<mapsto> blob)\<rparr>)"
    using assms
    by (simp add: save_original_def mkdir_parents_def write_bytes_def make_dirs_def)
  moreover have "\<forall>ext. spec_url_path_extension (url job) = Some ext \<longrightarrow>
               original_path job
                 = path_join (out_dir job) (base_name job @ ''.orig.'' @ lower ext)"
    by (simp add: original_path_def extension_refines)
  ultimately show ?thesis by simp
qed

lemma job_hero_eq:
  "job_hero = job_webp ''https://franquiadepilates.com.br/wp-content/uploads/2025/10/Imagem.webp''
       (OUT_IMAGES env0) ''hero'' [640, 960, 1280, 1600, 1920] 76"
  by (simp add: job_hero_def jobs_def)

lemma OUT_IMAGES_env0: "OUT_IMAGES env0 = Path ''/'' [''repo'', ''assets'', ''images'']"
  by (simp add: OUT_IMAGES_def env0_def path_join_def path_components_def)

lemma make_dirs_images_world0:
  "dirs (make_dirs (Path ''/'' [''repo'', ''assets'', ''images'']) w)
     = dirs w \<union> {Path ''/'' [], Path ''/'' [''repo''], Path ''/'' [''repo'', ''assets''],
          Path ''/'' [''repo'', ''assets'', ''images'']}"
  by (auto simp: make_dirs_def path_ancestors_def)

text \<open>The first job of the list, in an empty project directory.\<close>

theorem save_original_archives_witness:
  "mkdir_fault env0 world0 (out_dir job_hero) = None
   \<and> write_fault env0 (make_dirs (out_dir job_hero) world0) (original_path job_hero) = None
   \<and> spec_url_path_extension (url job_hero) = Some ''webp''
   \<and> original_path job_hero = Path ''/'' [''repo'', ''assets'', ''images'', ''hero.orig.webp'']
   \<and> fst (save_original env0 job_hero blob0 world0) = Inr (original_path job_hero)
   \<and> files (snd (save_original env0 job_hero blob0 world0)) (original_path job_hero) = Some blob0"
proof -
  have e: "spec_url_path_extension (url job_hero) = Some ''webp''"
    by (simp add: job_hero_eq job_webp_def spec_url_path_extension_def spec_after_last_def
        spec_strip_query_fragment_def)
  have d: "out_dir job_hero = Path ''/'' [''repo'', ''assets'', ''images'']"
    by (simp add: job_hero_eq job_webp_def OUT_IMAGES_env0)
  have m: "mkdir_fault env0 world0 (out_dir job_hero) = None"
    by (simp add: env0_def)
  have x: "original_ext (url job_hero) = ''webp''"
    by (simp add: job_hero_eq job_webp_def original_ext_def lower_def lower_char_def)
  have p: "original_path job_hero = Path ''/'' [''repo'', ''assets'', ''images'', ''hero.orig.webp'']"
    unfolding original_path_def x d
    by (simp add: job_hero_eq job_webp_def path_join_def path_components_def)
  have f: "write_fault env0 (make_dirs (out_dir job_hero) world0) (original_path job_hero) = None"
    unfolding p d
    by (simp add: env0_def posix_write_fault_def posix_norm_def path_parent_def make_dirs_images_world0)
  from save_original_archives [OF m f, of blob0] m f e p show ?thesis
    by simp
qed


text \<open>
  C3, as stated, fails for a URL whose final path segment has no dot, such as
  \<^verbatim>\<open>https://example.com/logo\<close>: the URL has no path extension, the script takes
  \<^verbatim>\<open>com/logo\<close>, the archive path lies in a directory \<^verbatim>\<open>logo.orig.com\<close> that nobody
  made, and on a POSIX file system the write raises and archives nothing.
\<close>

theorem save_original_without_extension_counterexample:
  "spec_url_path_extension (url job_nodot) = None
   \<and> original_path job_nodot
       = Path ''/'' [''repo'', ''assets'', ''images'', ''logo.orig.com'', ''logo'']
   \<and> fst (save_original env0 job_nodot blob0 world0)
       = Inl (Exn ''FileNotFoundError''
           (''[Errno 2] No such file or directory: '' @ [CHR 39]
              @ ''/repo/assets/images/logo.orig.com/logo'' @ [CHR 39]))
   \<and> files (snd (save_original env0 job_nodot blob0 world0)) = Map.empty"
proof -
  have e: "spec_url_path_extension (url job_nodot) = None"
    by (simp add: job_nodot_def job_webp_def spec_url_path_extension_def spec_after_last_def
        spec_strip_query_fragment_def)
  have d: "out_dir job_nodot = Path ''/'' [''repo'', ''assets'', ''images'']"
    by (simp add: job_nodot_def job_webp_def OUT_IMAGES_env0)
  have x: "original_ext (url job_nodot) = ''com/logo''"
    by (simp add: job_nodot_def job_webp_def original_ext_def lower_def lower_char_def)
  have p: "original_path job_nodot
             = Path ''/'' [''repo'', ''assets'', ''images'', ''logo.orig.com'', ''logo'']"
    unfolding original_path_def x d
    by (simp add: job_nodot_def job_webp_def path_join_def path_components_def)
  have s: "save_original env0 job_nodot blob0 world0
             = (Inl (Exn ''FileNotFoundError''
                  (''[Errno 2] No such file or directory: '' @ [CHR 39]
                     @ ''/repo/assets/images/logo.orig.com/logo'' @ [CHR 39])),
                make_dirs (Path ''/'' [''repo'', ''assets'', ''images'']) world0)"
    unfolding save_original_def p d
    by (simp add: mkdir_parents_def write_bytes_def env0_def posix_write_fault_def posix_norm_def
        path_parent_def make_dirs_images_world0 path_str_def world0_def)
  have r: "fst (save_original env0 job_nodot blob0 world0)
             = Inl (Exn ''FileNotFoundError''
                 (''[Errno 2] No such file or directory: '' @ [CHR 39]
                    @ ''/repo/assets/images/logo.orig.com/logo'' @ [CHR 39]))"
    unfolding s by simp
  have f: "files (snd (save_original env0 job_nodot blob0 world0)) = Map.empty"
    unfolding s by (simp add: make_dirs_def world0_def)
  from e p r f show ?thesis
    by (intro conjI)
qed

subsection \<open>Jobs\<close>

lemma save_original_ok:
  assumes "mkdir_fault E (started job w) (out_dir job) = None"
    and "write_fault E (make_dirs (out_dir job) (started job w)) (original_path job) = None"
  shows "save_original E job blob (started job w) = (Inr (original_path job), archived job blob w)"
  using assms
  by (simp add: save_original_def mkdir_parents_def write_bytes_def make_dirs_def archived_def
      started_def print_out_def)

text \<open>
  C9, amended. A job of the format \<^verbatim>\<open>webp\<close> with no widths, whose payload is fetched,
  archived, decoded and normalised without error, completes without error; the only change to the
  files is the archived original, and nothing is printed after the first line: the job is
  not rejected and has no derivative.
\<close>

theorem empty_widths_job:
  assumes "format job = ''webp''" and "widths job = []"
    and "download_bytes E (url job) = Inr blob"
    and "mkdir_fault E (started job w) (out_dir job) = None"
    and "write_fault E (make_dirs (out_dir job) (started job w)) (original_path job) = None"
    and "Image_open E blob = Inr im0" and "Image_load E im0 = Inr im1"
    and "normalize_mode E im1 = Inr im"
  shows "process_job E job w = (Inr (), archived job blob w)"
  using assms save_original_ok [of E job w blob]
  by (simp add: process_job_def webp_pipeline_def started_def Let_def)

lemma job_logo_eq:
  "job_logo = job_webp ''https://franquiadepilates.com.br/wp-content/uploads/2019/02/voll-pilates.png''
       (OUT_IMAGES env0) ''logo-voll-grupo'' [200, 400] 82"
  by (simp add: job_logo_def jobs_def)


lemma job_empty_eq:
  "job_empty = job_webp ''https://franquiadepilates.com.br/wp-content/uploads/2025/10/Imagem.webp''
       (OUT_IMAGES env0) ''hero'' [] 76"
  by (simp add: job_empty_def job_hero_eq job_webp_def)

text \<open>The first job of the list with its widths removed.\<close>

theorem empty_widths_job_witness:
  "format job_empty = ''webp'' \<and> widths job_empty = []
   \<and> download_bytes env0 (url job_empty) = Inr blob0
   \<and> Image_open env0 blob0 = Inr img0 \<and> Image_load env0 img0 = Inr img0
   \<and> normalize_mode env0 img0 = Inr img0
   \<and> process_job env0 job_empty world0 = (Inr (), archived job_empty blob0 world0)
   \<and> original_path job_empty = Path ''/'' [''repo'', ''assets'', ''images'', ''hero.orig.webp'']
   \<and> files (archived job_empty blob0 world0)
       = [Path ''/'' [''repo'', ''assets'', ''images'', ''hero.orig.webp''] \<mapsto> blob0]"
proof -
  have a: "format job_empty = ''webp''" and b: "widths job_empty = []"
    by (simp_all add: job_empty_eq job_webp_def)
  have c: "download_bytes env0 (url job_empty) = Inr blob0"
    by (simp add: download_bytes_def env0_def)
  have d: "out_dir job_empty = Path ''/'' [''repo'', ''assets'', ''images'']"
    by (simp add: job_empty_eq job_webp_def OUT_IMAGES_env0)
  have x: "original_ext (url job_empty) = ''webp''"
    by (simp add: job_empty_eq job_webp_def original_ext_def lower_def lower_char_def)
  have p: "original_path job_empty = Path ''/'' [''repo'', ''assets'', ''images'', ''hero.orig.webp'']"
    unfolding original_path_def x d
    by (simp add: job_empty_eq job_webp_def path_join_def path_components_def)
  have m: "mkdir_fault env0 (started job_empty world0) (out_dir job_empty) = None"
    by (simp add: env0_def)
  have f: "write_fault env0 (make_dirs (out_dir job_empty) (started job_empty world0))
             (original_path job_empty) = None"
    unfolding p d
    by (simp add: env0_def posix_write_fault_def posix_norm_def path_parent_def make_dirs_images_world0)
  have i: "Image_open env0 blob0 = Inr img0" and l: "Image_load env0 img0 = Inr img0"
    by (simp_all add: env0_def)
  have n: "normalize_mode env0 img0 = Inr img0"
    by (simp add: normalize_mode_def img0_def)
  have g: "files (archived job_empty blob0 world0)
       = [Path ''/'' [''repo'', ''assets'', ''images'', ''hero.orig.webp''] \<mapsto> blob0]"
    unfolding archived_def p by (simp add: world0_def)
  from empty_widths_job [OF a b c m f i l n] a b c i l n p g show ?thesis
    by (intro conjI)
qed

text \<open>
  C9, as stated, fails: the payload of the same job is fetched and decoded, to a palette
  bitmap, and the conversion of that bitmap to \<^verbatim>\<open>RGB\<close> raises; the job ends with that
  error, the archived original written.
\<close>

theorem empty_widths_conversion_counterexample:
  "format job_empty = ''webp'' \<and> widths job_empty = []
   \<and> download_bytes env_convert_fails (url job_empty) = Inr blob0
   \<and> Image_open env_convert_fails blob0 = Inr img_palette
   \<and> Image_load env_convert_fails img_palette = Inr img_palette
   \<and> fst (process_job env_convert_fails job_empty world0) = Inl (Exn ''MemoryError'' [])
   \<and> files (snd (process_job env_convert_fails job_empty world0))
       = [Path ''/'' [''repo'', ''assets'', ''images'', ''hero.orig.webp''] \<mapsto> blob0]"
proof -
  have a: "format job_empty = ''webp''" and b: "widths job_empty = []"
    by (simp_all add: job_empty_eq job_webp_def)
  have c: "download_bytes env_convert_fails (url job_empty) = Inr blob0"
    by (simp add: download_bytes_def env_convert_fails_def env_palette_def env0_def)
  have i: "Image_open env_convert_fails blob0 = Inr img_palette"
    and l: "Image_load env_convert_fails img_palette = Inr img_palette"
    by (simp_all add: env_convert_fails_def env_palette_def env0_def)
  have d: "out_dir job_empty = Path ''/'' [''repo'', ''assets'', ''images'']"
    by (simp add: job_empty_eq job_webp_def OUT_IMAGES_env0)
  have x: "original_ext (url job_empty) = ''webp''"
    by (simp add: job_empty_eq job_webp_def original_ext_def lower_def lower_char_def)
  have p: "original_path job_empty = Path ''/'' [''repo'', ''assets'', ''images'', ''hero.orig.webp'']"
    unfolding original_path_def x d
    by (simp add: job_empty_eq job_webp_def path_join_def path_components_def)
  have m: "mkdir_fault env_convert_fails (started job_empty world0) (out_dir job_empty) = None"
    by (simp add: env_convert_fails_def env_palette_def env0_def)
  have f: "write_fault env_convert_fails (make_dirs (out_dir job_empty) (started job_empty world0))
             (original_path job_empty) = None"
    unfolding p d
    by (simp add: env_convert_fails_def env_palette_def env0_def posix_write_fault_def
        posix_norm_def path_parent_def make_dirs_images_world0)
  have s: "save_original env_convert_fails job_empty blob0 (started job_empty world0)
             = (Inr (original_path job_empty), archived job_empty blob0 world0)"
    using m f by (rule save_original_ok)
  have n: "normalize_mode env_convert_fails img_palette = Inl (Exn ''MemoryError'' [])"
    by (simp add: normalize_mode_def convert_def img_palette_def env_convert_fails_def)
  have r: "process_job env_convert_fails job_empty world0
             = (Inl (Exn ''MemoryError'' []), archived job_empty blob0 world0)"
    using a c s i l n by (simp add: process_job_def webp_pipeline_def started_def Let_def)
  have e: "fst (process_job env_convert_fails job_empty world0) = Inl (Exn ''MemoryError'' [])"
    unfolding r by simp
  have g: "files (snd (process_job env_convert_fails job_empty world0))
       = [Path ''/'' [''repo'', ''assets'', ''images'', ''hero.orig.webp''] \<mapsto> blob0]"
    unfolding r archived_def p by (simp add: world0_def)
  from a b c i l e g show ?thesis
    by (intro conjI)
qed

lemma job_update_fields:
  "url (job\<lparr>widths := ws, quality := q\<rparr>) = url job"
  "out_dir (job\<lparr>widths := ws, quality := q\<rparr>) = out_dir job"
  "base_name (job\<lparr>widths := ws, quality := q\<rparr>) = base_name job"
  "format (job\<lparr>widths := ws, quality := q\<rparr>) = format job"
  by simp_all

lemma process_job_png_ignores_widths:
  assumes "format job = ''png''"
  shows "process_job E (job\<lparr>widths := ws, quality := q\<rparr>) w = process_job E job w"
  unfolding process_job_def save_original_def png_copy_def original_path_def png_path_def
    job_update_fields assms
  by (simp add: Let_def split: sum.splits prod.splits)

text \<open>
  C5, amended. A job whose format is \<^verbatim>\<open>png\<close>, fetched and written without error, yields
  exactly two files, \<^verbatim>\<open><base_name>.orig.<ext>\<close> and \<^verbatim>\<open><base_name>.png\<close>, each holding
  the fetched bytes; nothing is decoded, resized or encoded, and the job's widths and
  quality change nothing. The job then prints the path of the copy relative to the project
  root and completes, or raises \<^verbatim>\<open>ValueError\<close>, both files written, when the copy is not
  below the project root.
\<close>

theorem png_job_copies:
  assumes "format job = ''png''"
    and "download_bytes E (url job) = Inr blob"
    and "mkdir_fault E (started job w) (out_dir job) = None"
    and "write_fault E (make_dirs (out_dir job) (started job w)) (original_path job) = None"
    and "write_fault E (archived job blob w) (png_path job) = None"
  shows "files (snd (process_job E job w))
           = (files w)(original_path job \<mapsto> blob, png_path job \<mapsto> blob)
         \<and> process_job E job w =
             (case relative_to (png_path job) (ROOT E) of
                Inl err \<Rightarrow>
                  (Inl err, (archived job blob w)\<lparr>files :=
                               (files w)(original_path job \<mapsto> blob, png_path job \<mapsto> blob)\<rparr>)
              | Inr rel \<Rightarrow>
                  (Inr (), print_out (''  -> '' @ path_str rel)
                             ((archived job blob w)\<lparr>files :=
                                (files w)(original_path job \<mapsto> blob, png_path job \<mapsto> blob)\<rparr>)))
         \<and> process_job E (job\<lparr>widths := ws, quality := q\<rparr>) w = process_job E job w"
proof -
  have s: "save_original E job blob (started job w) = (Inr (original_path job), archived job blob w)"
    using assms(3,4) by (rule save_original_ok)
  have c: "png_copy E job blob (archived job blob w) =
             (case relative_to (png_path job) (ROOT E) of
                Inl err \<Rightarrow>
                  (Inl err, (archived job blob w)\<lparr>files :=
                               (files w)(original_path job \<mapsto> blob, png_path job \<mapsto> blob)\<rparr>)
              | Inr rel \<Rightarrow>
                  (Inr (), print_out (''  -> '' @ path_str rel)
                             ((archived job blob w)\<lparr>files :=
                                (files w)(original_path job \<mapsto> blob, png_path job \<mapsto> blob)\<rparr>)))"
    using assms(5) by (simp add: png_copy_def write_bytes_def archived_def split: sum.splits)
  have e: "process_job E job w = png_copy E job blob (archived job blob w)"
    using assms(1,2) s by (simp add: process_job_def started_def Let_def)
  have f: "files (snd (process_job E job w))
             = (files w)(original_path job \<mapsto> blob, png_path job \<mapsto> blob)"
    unfolding e c by (simp add: print_out_def split: sum.splits)
  have i: "process_job E (job\<lparr>widths := ws, quality := q\<rparr>) w = process_job E job w"
    using assms(1) by (rule process_job_png_ignores_widths)
  from f e [unfolded c] i show ?thesis
    by (intro conjI)
qed

lemma job_logo_png_eq:
  "job_logo_png = \<lparr>url = ''https://franquiadepilates.com.br/wp-content/uploads/2019/02/voll-pilates.png'',
      out_dir = Path ''/'' [''repo'', ''assets'', ''images''], base_name = ''logo-voll-grupo'',
      widths = [200, 400], format = ''png'', quality = 82\<rparr>"
  by (simp add: job_logo_png_def job_logo_eq job_webp_def OUT_IMAGES_env0)

lemma job_outside_eq:
  "job_outside = \<lparr>url = ''https://franquiadepilates.com.br/wp-content/uploads/2019/02/voll-pilates.png'',
      out_dir = Path ''/'' [''repo'', ''assets'', ''images''], base_name = ''//repo/logo'',
      widths = [200, 400], format = ''png'', quality = 82\<rparr>"
  by (simp add: job_outside_def job_logo_png_eq)

text \<open>The job \<^verbatim>\<open>logo-voll-grupo\<close> once its format is set to \<^verbatim>\<open>png\<close>, and the same job
  with the base name \<^verbatim>\<open>//repo/logo\<close>.\<close>

theorem png_job_copies_witness:
  "format job_logo_png = ''png''
   \<and> download_bytes env0 (url job_logo_png) = Inr blob0
   \<and> original_path job_logo_png
       = Path ''/'' [''repo'', ''assets'', ''images'', ''logo-voll-grupo.orig.png'']
   \<and> png_path job_logo_png = Path ''/'' [''repo'', ''assets'', ''images'', ''logo-voll-grupo.png'']
   \<and> fst (process_job env0 job_logo_png world0) = Inr ()
   \<and> files (snd (process_job env0 job_logo_png world0))
       = [Path ''/'' [''repo'', ''assets'', ''images'', ''logo-voll-grupo.orig.png''] \<mapsto> blob0,
          Path ''/'' [''repo'', ''assets'', ''images'', ''logo-voll-grupo.png''] \<mapsto> blob0]
   \<and> format job_outside = ''png''
   \<and> download_bytes env0 (url job_outside) = Inr blob0
   \<and> original_path job_outside = Path ''//'' [''repo'', ''logo.orig.png'']
   \<and> png_path job_outside = Path ''//'' [''repo'', ''logo.png'']
   \<and> exn_class (projl (fst (process_job env0 job_outside world0))) = ''ValueError''
   \<and> isl (fst (process_job env0 job_outside world0))
   \<and> files (snd (process_job env0 job_outside world0))
       = [Path ''//'' [''repo'', ''logo.orig.png''] \<mapsto> blob0,
          Path ''//'' [''repo'', ''logo.png''] \<mapsto> blob0]"
proof -
  have a: "format job_logo_png = ''png''"
    by (simp add: job_logo_png_eq)
  have c: "download_bytes env0 (url job_logo_png) = Inr blob0"
    by (simp add: download_bytes_def env0_def)
  have d: "out_dir job_logo_png = Path ''/'' [''repo'', ''assets'', ''images'']"
    by (simp add: job_logo_png_eq)
  have x: "original_ext (url job_logo_png) = ''png''"
    by (simp add: job_logo_png_eq original_ext_def lower_def lower_char_def)
  have p: "original_path job_logo_png
             = Path ''/'' [''repo'', ''assets'', ''images'', ''logo-voll-grupo.orig.png'']"
    unfolding original_path_def x d
    by (simp add: job_logo_png_eq path_join_def path_components_def)
  have g: "png_path job_logo_png = Path ''/'' [''repo'', ''assets'', ''images'', ''logo-voll-grupo.png'']"
    unfolding png_path_def d
    by (simp add: job_logo_png_eq path_join_def path_components_def)
  have m: "mkdir_fault env0 (started job_logo_png world0) (out_dir job_logo_png) = None"
    by (simp add: env0_def)
  have f: "write_fault env0 (make_dirs (out_dir job_logo_png) (started job_logo_png world0))
             (original_path job_logo_png) = None"
    unfolding p d
    by (simp add: env0_def posix_write_fault_def posix_norm_def path_parent_def make_dirs_images_world0)
  have h: "write_fault env0 (archived job_logo_png blob0 world0) (png_path job_logo_png) = None"
    unfolding g archived_def d
    by (simp add: env0_def posix_write_fault_def posix_norm_def path_parent_def make_dirs_images_world0)
  have r: "relative_to (png_path job_logo_png) (ROOT env0)
             = Inr (Path [] [''assets'', ''images'', ''logo-voll-grupo.png''])"
    unfolding g by (simp add: relative_to_def env0_def)
  note t = png_job_copies [OF a c m f h]
  have o: "fst (process_job env0 job_logo_png world0) = Inr ()"
    unfolding t [THEN conjunct2, THEN conjunct1] r by simp
  have k: "files (snd (process_job env0 job_logo_png world0))
       = [Path ''/'' [''repo'', ''assets'', ''images'', ''logo-voll-grupo.orig.png''] \<mapsto> blob0,
          Path ''/'' [''repo'', ''assets'', ''images'', ''logo-voll-grupo.png''] \<mapsto> blob0]"
    unfolding t [THEN conjunct1] p g by (simp add: world0_def)
  have a': "format job_outside = ''png''"
    by (simp add: job_outside_eq)
  have c': "download_bytes env0 (url job_outside) = Inr blob0"
    by (simp add: download_bytes_def env0_def)
  have d': "out_dir job_outside = Path ''/'' [''repo'', ''assets'', ''images'']"
    by (simp add: job_outside_eq)
  have x': "original_ext (url job_outside) = ''png''"
    by (simp add: job_outside_eq original_ext_def lower_def lower_char_def)
  have p': "original_path job_outside = Path ''//'' [''repo'', ''logo.orig.png'']"
    unfolding original_path_def x' d'
    by (simp add: job_outside_eq path_join_def path_components_def)
  have g': "png_path job_outside = Path ''//'' [''repo'', ''logo.png'']"
    unfolding png_path_def d'
    by (simp add: job_outside_eq path_join_def path_components_def)
  have m': "mkdir_fault env0 (started job_outside world0) (out_dir job_outside) = None"
    by (simp add: env0_def)
  have f': "write_fault env0 (make_dirs (out_dir job_outside) (started job_outside world0))
             (original_path job_outside) = None"
    unfolding p' d'
    by (simp add: env0_def posix_write_fault_def posix_norm_def path_parent_def make_dirs_images_world0)
  have h': "write_fault env0 (archived job_outside blob0 world0) (png_path job_outside) = None"
    unfolding g' archived_def d'
    by (simp add: env0_def posix_write_fault_def posix_norm_def path_parent_def make_dirs_images_world0)
  have r': "relative_to (png_path job_outside) (ROOT env0)
             = Inl (Exn ''ValueError''
                 ([CHR 39] @ ''//repo/logo.png'' @ [CHR 39] @ '' is not in the subpath of ''
                    @ [CHR 39] @ ''/repo'' @ [CHR 39]))"
    unfolding g' by (simp add: relative_to_def env0_def path_str_def)
  note t' = png_job_copies [OF a' c' m' f' h']
  have o': "exn_class (projl (fst (process_job env0 job_outside world0))) = ''ValueError''"
    unfolding t' [THEN conjunct2, THEN conjunct1] r' by simp
  have i': "isl (fst (process_job env0 job_outside world0))"
    unfolding t' [THEN conjunct2, THEN conjunct1] r' by simp
  have k': "files (snd (process_job env0 job_outside world0))
       = [Path ''//'' [''repo'', ''logo.orig.png''] \<mapsto> blob0,
          Path ''//'' [''repo'', ''logo.png''] \<mapsto> blob0]"
    unfolding t' [THEN conjunct1] p' g' by (simp add: world0_def)
  from a c p g o k a' c' p' g' o' i' k' show ?thesis
    by (intro conjI)
qed

text \<open>
  C5, as stated, fails: the job \<^verbatim>\<open>logo-voll-grupo\<close> of the list names no format, so it
  has the format \<^verbatim>\<open>webp\<close>. It yields the archived original and the two derivatives
  \<^verbatim>\<open>logo-voll-grupo-200.webp\<close> and \<^verbatim>\<open>logo-voll-grupo-400.webp\<close>, encoded anew, and no
  file \<^verbatim>\<open>logo-voll-grupo.png\<close>.
\<close>

theorem logo_voll_grupo_counterexample:
  "base_name job_logo = ''logo-voll-grupo'' \<and> format job_logo = ''webp''
   \<and> fst (process_job env0 job_logo world0) = Inr ()
   \<and> files (snd (process_job env0 job_logo world0))
        (Path ''/'' [''repo'', ''assets'', ''images'', ''logo-voll-grupo.png'']) = None
   \<and> files (snd (process_job env0 job_logo world0))
        (Path ''/'' [''repo'', ''assets'', ''images'', ''logo-voll-grupo.orig.png'']) = Some blob0
   \<and> files (snd (process_job env0 job_logo world0))
        (Path ''/'' [''repo'', ''assets'', ''images'', ''logo-voll-grupo-200.webp''])
       = Some [82, 73, 70, 70]
   \<and> files (snd (process_job env0 job_logo world0))
        (Path ''/'' [''repo'', ''assets'', ''images'', ''logo-voll-grupo-400.webp''])
       = Some [82, 73, 70, 70]"
  by code_simp


lemma mkdir_parents_files: "files (snd (mkdir_parents E p w)) = files w"
  by (simp add: mkdir_parents_def make_dirs_def split: option.splits)

lemma save_webp_files: "q \<noteq> p \<Longrightarrow> files (snd (save_webp E img p qual w)) q = files w q"
  by (simp add: save_webp_def split: option.splits sum.splits)

lemma encode_webp_files:
  assumes "q \<noteq> out_path"
  shows "files (snd (encode_webp E img out_path qual w)) q = files w q"
proof (cases "mkdir_parents E (path_parent out_path) w")
  case (Pair r w1)
  have w1: "files w1 = files w"
    using mkdir_parents_files [of E "path_parent out_path" w] Pair by simp
  show ?thesis
  proof (cases r)
    case (Inl err)
    with Pair w1 show ?thesis by (simp add: encode_webp_def)
  next
    case (Inr u)
    with Pair w1 save_webp_files [OF assms, of E img qual w1] show ?thesis
      by (simp add: encode_webp_def)
  qed
qed

lemma widths_loop_files:
  "\<forall>x\<in>set ws. webp_path job x \<noteq> p \<Longrightarrow> files (snd (widths_loop E job im ws w)) p = files w p"
proof (induction ws arbitrary: w)
  case Nil
  show ?case by simp
next
  case (Cons x ws)
  then have x: "p \<noteq> webp_path job x" and rest: "\<forall>y\<in>set ws. webp_path job y \<noteq> p"
    by auto
  show ?case
  proof (cases "resize_to_width E im x")
    case (Inl err)
    then show ?thesis by simp
  next
    case (Inr resized)
    obtain r w1 where e: "encode_webp E resized (webp_path job x) (quality job) w = (r, w1)"
      by (cases "encode_webp E resized (webp_path job x) (quality job) w")
    have w1: "files w1 p = files w p"
      using encode_webp_files [OF x, of E resized "quality job" w] e by simp
    show ?thesis
    proof (cases r)
      case (Inl err)
      with Inr e w1 show ?thesis by simp
    next
      case ok: (Inr u)
      show ?thesis
      proof (cases "relative_to (webp_path job x) (ROOT E)")
        case (Inl err)
        with Inr e ok w1 show ?thesis by simp
      next
        case rel: (Inr rel)
        have "files (snd (widths_loop E job im ws (print_out (''  -> '' @ path_str rel) w1))) p
                = files (print_out (''  -> '' @ path_str rel) w1) p"
          using Cons.IH [OF rest] .
        with Inr e ok rel w1 show ?thesis by (simp add: print_out_def)
      qed
    qed
  qed
qed

lemma webp_pipeline_keeps_original:
  "files (snd (webp_pipeline E job blob w)) (original_path job) = files w (original_path job)"
proof -
  have "\<forall>x\<in>set (widths job). webp_path job x \<noteq> original_path job"
    by (simp add: webp_path_neq_original_path)
  then show ?thesis
    by (simp add: webp_pipeline_def widths_loop_files split: sum.splits)
qed

lemma png_copy_keeps:
  "files w p = Some blob \<Longrightarrow> files (snd (png_copy E job blob w)) p = Some blob"
  by (simp add: png_copy_def write_bytes_def print_out_def split: option.splits sum.splits)

lemma save_original_result:
  assumes "save_original E job blob w0 = (Inr p, w1)"
  shows "p = original_path job \<and> files w1 p = Some blob"
  using assms
  by (auto simp: save_original_def mkdir_parents_def write_bytes_def
      split: option.splits sum.splits prod.splits)

text \<open>
  C6. Once the fetch has succeeded, the archiver runs before anything else: the decoding
  or the copy starts from the world that the archiver left, in which the archived original
  holds the fetched bytes, and whatever the rest of the job does, fail or not, the
  archived original still holds them at the end.
\<close>

theorem archive_survives_transcoding:
  assumes "download_bytes E (url job) = Inr blob"
    and "save_original E job blob (started job w) = (Inr p, w1)"
  shows "p = original_path job \<and> files w1 p = Some blob
         \<and> process_job E job w
             = (if format job = ''png'' then png_copy E job blob w1
                else webp_pipeline E job blob w1)
         \<and> files (snd (process_job E job w)) p = Some blob"
proof -
  from assms(2) have p: "p = original_path job" and f: "files w1 p = Some blob"
    using save_original_result by blast+
  have r: "process_job E job w
             = (if format job = ''png'' then png_copy E job blob w1
                else webp_pipeline E job blob w1)"
    using assms by (simp add: process_job_def started_def Let_def)
  have "files (snd (process_job E job w)) p = Some blob"
  proof (cases "format job = ''png''")
    case True
    with r f show ?thesis by (simp add: png_copy_keeps)
  next
    case False
    with r f p show ?thesis by (simp add: webp_pipeline_keeps_original)
  qed
  with p f r show ?thesis by (intro conjI)
qed

lemma process_job_encoder_fails:
  "fst (process_job env_encoder_fails job_hero world0)
     = Inl (Exn ''OSError'' ''cannot write file as WebP (encoder returned None)'')"
  by code_simp

text \<open>The first job of the list when the encoder fails at the first width.\<close>

theorem archive_survives_transcoding_witness:
  "download_bytes env_encoder_fails (url job_hero) = Inr blob0
   \<and> save_original env_encoder_fails job_hero blob0 (started job_hero world0)
       = (Inr (original_path job_hero), archived job_hero blob0 world0)
   \<and> fst (process_job env_encoder_fails job_hero world0)
       = Inl (Exn ''OSError'' ''cannot write file as WebP (encoder returned None)'')
   \<and> files (snd (process_job env_encoder_fails job_hero world0)) (original_path job_hero)
       = Some blob0"
proof -
  have c: "download_bytes env_encoder_fails (url job_hero) = Inr blob0"
    by (simp add: download_bytes_def env_encoder_fails_def env0_def)
  have d: "out_dir job_hero = Path ''/'' [''repo'', ''assets'', ''images'']"
    by (simp add: job_hero_eq job_webp_def OUT_IMAGES_env0)
  have x: "original_ext (url job_hero) = ''webp''"
    by (simp add: job_hero_eq job_webp_def original_ext_def lower_def lower_char_def)
  have p: "original_path job_hero = Path ''/'' [''repo'', ''assets'', ''images'', ''hero.orig.webp'']"
    unfolding original_path_def x d
    by (simp add: job_hero_eq job_webp_def path_join_def path_components_def)
  have m: "mkdir_fault env_encoder_fails (started job_hero world0) (out_dir job_hero) = None"
    by (simp add: env_encoder_fails_def env0_def)
  have f: "write_fault env_encoder_fails (make_dirs (out_dir job_hero) (started job_hero world0))
             (original_path job_hero) = None"
    unfolding p d
    by (simp add: env_encoder_fails_def env0_def posix_write_fault_def posix_norm_def path_parent_def
        make_dirs_images_world0)
  note s = save_original_ok [OF m f, of blob0]
  note k = archive_survives_transcoding [OF c s, THEN conjunct2, THEN conjunct2, THEN conjunct2]
  from c s process_job_encoder_fails k show ?thesis
    by (intro conjI)
qed

subsection \<open>The run\<close>

lemma run_jobs_append:
  "run_jobs E (xs @ ys) s = run_jobs E ys (run_jobs E xs s)"
proof (induction xs arbitrary: s)
  case Nil
  show ?case by simp
next
  case (Cons x xs)
  obtain n w where s: "s = (n, w)" by (cases s)
  show ?case
    unfolding s by (simp add: Cons split: prod.splits sum.splits)
qed

lemma run_jobs_count:
  "fst (run_jobs E js (n, w)) = n + int (length (failed_jobs E js w))"
proof (induction js arbitrary: n w)
  case Nil
  show ?case by simp
next
  case (Cons job js)
  show ?case
    by (simp add: Cons split: prod.splits sum.splits)
qed

lemma mkdir_parents_streams:
  "stdout (snd (mkdir_parents E p w)) = stdout w \<and> stderr (snd (mkdir_parents E p w)) = stderr w"
  by (simp add: mkdir_parents_def make_dirs_def split: option.splits)

lemma write_bytes_streams:
  "stdout (snd (write_bytes E p d w)) = stdout w \<and> stderr (snd (write_bytes E p d w)) = stderr w"
  by (simp add: write_bytes_def split: option.splits)

lemma save_webp_streams:
  "stdout (snd (save_webp E img p q w)) = stdout w \<and> stderr (snd (save_webp E img p q w)) = stderr w"
  by (simp add: save_webp_def split: option.splits sum.splits)

lemma encode_webp_streams:
  "stdout (snd (encode_webp E img p q w)) = stdout w \<and> stderr (snd (encode_webp E img p q w)) = stderr w"
proof (cases "mkdir_parents E (path_parent p) w")
  case (Pair r w1)
  with mkdir_parents_streams [of E "path_parent p" w] save_webp_streams [of E img p q w1]
  show ?thesis by (cases r) (simp_all add: encode_webp_def)
qed

lemma save_original_streams:
  "stdout (snd (save_original E job blob w)) = stdout w
   \<and> stderr (snd (save_original E job blob w)) = stderr w"
proof (cases "mkdir_parents E (out_dir job) w")
  case (Pair r w1)
  with mkdir_parents_streams [of E "out_dir job" w]
    write_bytes_streams [of E "original_path job" blob w1]
  show ?thesis
    by (cases r) (auto simp: save_original_def split: prod.splits sum.splits)
qed

lemma not_start_line_arrow: "\<not> is_start_line (''  -> '' @ s)"
  by (simp add: is_start_line_def)

lemma is_start_line_start: "is_start_line (start_line job)"
  by (simp add: is_start_line_def start_line_def)

lemma widths_loop_streams:
  "stderr (snd (widths_loop E job im ws w)) = stderr w
   \<and> (\<exists>ls. stdout (snd (widths_loop E job im ws w)) = stdout w @ ls
            \<and> (\<forall>l\<in>set ls. \<not> is_start_line l))"
proof (induction ws arbitrary: w)
  case Nil
  show ?case by simp
next
  case (Cons x ws)
  show ?case
  proof (cases "resize_to_width E im x")
    case (Inl err)
    then show ?thesis by simp
  next
    case (Inr resized)
    obtain r w1 where e: "encode_webp E resized (webp_path job x) (quality job) w = (r, w1)"
      by (cases "encode_webp E resized (webp_path job x) (quality job) w")
    have w1: "stdout w1 = stdout w \<and> stderr w1 = stderr w"
      using encode_webp_streams [of E resized "webp_path job x" "quality job" w] e by simp
    show ?thesis
    proof (cases r)
      case (Inl err)
      with Inr e w1 show ?thesis by simp
    next
      case ok: (Inr u)
      show ?thesis
      proof (cases "relative_to (webp_path job x) (ROOT E)")
        case (Inl err)
        with Inr e ok w1 show ?thesis by simp
      next
        case rel: (Inr rel)
        let ?w2 = "print_out (''  -> '' @ path_str rel) w1"
        from Cons [of ?w2] obtain ls where
          a: "stderr (snd (widths_loop E job im ws ?w2)) = stderr ?w2"
          and b: "stdout (snd (widths_loop E job im ws ?w2)) = stdout ?w2 @ ls"
          and c: "\<forall>l\<in>set ls. \<not> is_start_line l"
          by blast
        have l: "widths_loop E job im (x # ws) w = widths_loop E job im ws ?w2"
          using Inr e ok rel by simp
        have "stdout (snd (widths_loop E job im (x # ws) w))
                = stdout w @ ((''  -> '' @ path_str rel) # ls)"
          unfolding l b using w1 by (simp add: print_out_def)
        moreover have "\<forall>l\<in>set ((''  -> '' @ path_str rel) # ls). \<not> is_start_line l"
          using c not_start_line_arrow by simp
        moreover have "stderr (snd (widths_loop E job im (x # ws) w)) = stderr w"
          unfolding l a using w1 by (simp add: print_out_def)
        ultimately show ?thesis by blast
      qed
    qed
  qed
qed

lemma webp_pipeline_streams:
  "stderr (snd (webp_pipeline E job blob w)) = stderr w
   \<and> (\<exists>ls. stdout (snd (webp_pipeline E job blob w)) = stdout w @ ls
            \<and> (\<forall>l\<in>set ls. \<not> is_start_line l))"
  using widths_loop_streams
  by (simp add: webp_pipeline_def split: sum.splits)

lemma png_copy_streams:
  "stderr (snd (png_copy E job blob w)) = stderr w
   \<and> (\<exists>ls. stdout (snd (png_copy E job blob w)) = stdout w @ ls
            \<and> (\<forall>l\<in>set ls. \<not> is_start_line l))"
proof (cases "write_bytes E (png_path job) blob w")
  case (Pair r w1)
  have w1: "stdout w1 = stdout w \<and> stderr w1 = stderr w"
    using write_bytes_streams [of E "png_path job" blob w] Pair by simp
  show ?thesis
  proof (cases r)
    case (Inl err)
    with Pair w1 show ?thesis by (simp add: png_copy_def)
  next
    case ok: (Inr u)
    show ?thesis
    proof (cases "relative_to (png_path job) (ROOT E)")
      case (Inl err)
      with Pair ok w1 show ?thesis by (simp add: png_copy_def)
    next
      case (Inr rel)
      have "stdout (snd (png_copy E job blob w)) = stdout w @ [''  -> '' @ path_str rel]"
        using Pair ok Inr w1 by (simp add: png_copy_def print_out_def)
      moreover have "\<forall>l\<in>set [''  -> '' @ path_str rel]. \<not> is_start_line l"
        using not_start_line_arrow by simp
      moreover have "stderr (snd (png_copy E job blob w)) = stderr w"
        using Pair ok Inr w1 by (simp add: png_copy_def print_out_def)
      ultimately show ?thesis by blast
    qed
  qed
qed

lemma process_job_streams:
  "stderr (snd (process_job E job w)) = stderr w
   \<and> (\<exists>ls. stdout (snd (process_job E job w)) = stdout w @ start_line job # ls
            \<and> (\<forall>l\<in>set ls. \<not> is_start_line l))"
proof (cases "download_bytes E (url job)")
  case (Inl err)
  then show ?thesis
    by (simp add: process_job_def Let_def print_out_def start_line_def)
next
  case (Inr blob)
  let ?w0 = "print_out (start_line job) w"
  obtain r w1 where s: "save_original E job blob ?w0 = (r, w1)"
    by (cases "save_original E job blob ?w0")
  have w1: "stdout w1 = stdout w @ [start_line job] \<and> stderr w1 = stderr w"
    using save_original_streams [of E job blob ?w0] s by (simp add: print_out_def)
  show ?thesis
  proof (cases r)
    case (Inl err)
    with Inr s w1 show ?thesis
      by (simp add: process_job_def Let_def start_line_def)
  next
    case ok: (Inr p)
    have p: "process_job E job w
               = (if format job = ''png'' then png_copy E job blob w1
                  else webp_pipeline E job blob w1)"
      using Inr s ok by (simp add: process_job_def Let_def start_line_def)
    show ?thesis
    proof (cases "format job = ''png''")
      case True
      from png_copy_streams [of E job blob w1] obtain ls where
        "stderr (snd (png_copy E job blob w1)) = stderr w1"
        "stdout (snd (png_copy E job blob w1)) = stdout w1 @ ls"
        "\<forall>l\<in>set ls. \<not> is_start_line l"
        by blast
      with p True w1 show ?thesis by simp
    next
      case False
      from webp_pipeline_streams [of E job blob w1] obtain ls where
        "stderr (snd (webp_pipeline E job blob w1)) = stderr w1"
        "stdout (snd (webp_pipeline E job blob w1)) = stdout w1 @ ls"
        "\<forall>l\<in>set ls. \<not> is_start_line l"
        by blast
      with p False w1 show ?thesis by simp
    qed
  qed
qed

lemma run_jobs_started:
  "\<exists>ls. stdout (snd (run_jobs E js (n, w))) = stdout w @ ls
        \<and> filter is_start_line ls = map start_line js"
proof (induction js arbitrary: n w)
  case Nil
  show ?case by simp
next
  case (Cons job js)
  obtain r w1 where p: "process_job E job w = (r, w1)"
    by (cases "process_job E job w")
  from process_job_streams [of E job w] p obtain ls where
    ls: "stdout w1 = stdout w @ start_line job # ls" "\<forall>l\<in>set ls. \<not> is_start_line l"
    by auto
  have f: "filter is_start_line ls = []"
    using ls(2) by (simp add: filter_empty_conv)
  show ?case
  proof (cases r)
    case (Inl exc)
    let ?w2 = "print_err (''ERRO em '' @ url job @ '': '' @ exn_str exc) w1"
    from Cons [of "n + 1" ?w2] obtain ms where
      ms: "stdout (snd (run_jobs E js (n + 1, ?w2))) = stdout ?w2 @ ms"
          "filter is_start_line ms = map start_line js"
      by blast
    have "stdout (snd (run_jobs E (job # js) (n, w))) = stdout w @ (start_line job # ls @ ms)"
      using p Inl ms(1) ls(1) by (simp add: print_err_def)
    moreover have "filter is_start_line (start_line job # ls @ ms) = map start_line (job # js)"
      using f ms(2) is_start_line_start by simp
    ultimately show ?thesis by blast
  next
    case (Inr u)
    from Cons [of n w1] obtain ms where
      ms: "stdout (snd (run_jobs E js (n, w1))) = stdout w1 @ ms"
          "filter is_start_line ms = map start_line js"
      by blast
    have "stdout (snd (run_jobs E (job # js) (n, w))) = stdout w @ (start_line job # ls @ ms)"
      using p Inr ms(1) ls(1) by simp
    moreover have "filter is_start_line (start_line job # ls @ ms) = map start_line (job # js)"
      using f ms(2) is_start_line_start by simp
    ultimately show ?thesis by blast
  qed
qed

text \<open>
  C1. When the pipeline of a job raises, anywhere from the fetch to the encoding, the loop
  of \<open>main\<close> goes on with the jobs after it, with the failure counter one higher and the
  error stream one line longer, that line holding the job's URL and the text of the
  exception; the pipeline itself writes nothing on the error stream. Every job of the
  list, before and after the failed one, prints its first line: each one is processed.
\<close>

theorem job_failure_is_contained:
  assumes "run_jobs E pre (n0, w0) = (n1, w1)"
    and "process_job E job w1 = (Inl exc, w2)"
  shows "run_jobs E (pre @ job # post) (n0, w0)
           = run_jobs E post
               (n1 + 1, w2\<lparr>stderr := stderr w1 @ [''ERRO em '' @ url job @ '': '' @ exn_str exc]\<rparr>)
         \<and> filter is_start_line
             (drop (length (stdout w0)) (stdout (snd (run_jobs E (pre @ job # post) (n0, w0)))))
           = map start_line (pre @ job # post)"
proof -
  have e: "stderr w2 = stderr w1"
    using process_job_streams [of E job w1] assms(2) by simp
  have "run_jobs E (pre @ job # post) (n0, w0)
           = run_jobs E post
               (n1 + 1, w2\<lparr>stderr := stderr w1 @ [''ERRO em '' @ url job @ '': '' @ exn_str exc]\<rparr>)"
    using assms e by (simp add: run_jobs_append print_err_def)
  moreover from run_jobs_started [of E "pre @ job # post" n0 w0] obtain ls where
    "stdout (snd (run_jobs E (pre @ job # post) (n0, w0))) = stdout w0 @ ls"
    "filter is_start_line ls = map start_line (pre @ job # post)"
    by blast
  then have "filter is_start_line
             (drop (length (stdout w0)) (stdout (snd (run_jobs E (pre @ job # post) (n0, w0)))))
           = map start_line (pre @ job # post)"
    by simp
  ultimately show ?thesis by (intro conjI)
qed


lemma process_job_fetch_fails:
  "download_bytes E (url job) = Inl exc \<Longrightarrow> process_job E job w = (Inl exc, started job w)"
  by (simp add: process_job_def started_def Let_def)

lemma job_mapa_eq:
  "job_mapa = job_webp ''https://franquiadepilates.com.br/wp-content/uploads/2025/09/mapa.webp''
       (OUT_IMAGES env0) ''mapa'' [640, 960, 1200] 76"
  by (simp add: job_mapa_def jobs_def)

lemma three_jobs_run:
  "fst (run_jobs env404 three_jobs (0, world0)) = 2
   \<and> stderr (snd (run_jobs env404 three_jobs (0, world0)))
       = [''ERRO em https://franquiadepilates.com.br/wp-content/uploads/2025/09/mapa.webp: HTTP Error 404: Not Found'',
          ''ERRO em https://franquiadepilates.com.br/wp-content/uploads/2019/11/icons8-presente-100.png: HTTP Error 404: Not Found'']"
  by code_simp

text \<open>A job whose fetch gets a 404, followed by a job that succeeds and one that fails.\<close>

theorem job_failure_is_contained_witness:
  "run_jobs env404 [] (0, world0) = (0, world0)
   \<and> process_job env404 job_mapa world0
       = (Inl (Exn ''HTTPError'' ''HTTP Error 404: Not Found''), started job_mapa world0)
   \<and> run_jobs env404 ([] @ job_mapa # [job_logo, job_equipamentos]) (0, world0)
       = run_jobs env404 [job_logo, job_equipamentos]
           (0 + 1, (started job_mapa world0)\<lparr>stderr := stderr world0 @
              [''ERRO em '' @ url job_mapa @ '': '' @ ''HTTP Error 404: Not Found'']\<rparr>)
   \<and> fst (run_jobs env404 three_jobs (0, world0)) = 2
   \<and> stderr (snd (run_jobs env404 three_jobs (0, world0)))
       = [''ERRO em https://franquiadepilates.com.br/wp-content/uploads/2025/09/mapa.webp: HTTP Error 404: Not Found'',
          ''ERRO em https://franquiadepilates.com.br/wp-content/uploads/2019/11/icons8-presente-100.png: HTTP Error 404: Not Found'']"
proof -
  have a: "run_jobs env404 [] (0, world0) = (0, world0)"
    by simp
  have d: "download_bytes env404 (url job_mapa) = Inl (Exn ''HTTPError'' ''HTTP Error 404: Not Found'')"
    by (simp add: download_bytes_def env404_def job_mapa_eq job_webp_def)
  have b: "process_job env404 job_mapa world0
       = (Inl (Exn ''HTTPError'' ''HTTP Error 404: Not Found''), started job_mapa world0)"
    using d by (rule process_job_fetch_fails)
  note t = job_failure_is_contained [OF a b, of "[job_logo, job_equipamentos]", THEN conjunct1]
  have c: "run_jobs env404 ([] @ job_mapa # [job_logo, job_equipamentos]) (0, world0)
       = run_jobs env404 [job_logo, job_equipamentos]
           (0 + 1, (started job_mapa world0)\<lparr>stderr := stderr world0 @
              [''ERRO em '' @ url job_mapa @ '': '' @ ''HTTP Error 404: Not Found'']\<rparr>)"
    using t by simp
  from a b c three_jobs_run show ?thesis
    by (intro conjI) simp_all
qed

lemma main_on_status:
  "fst (main_on E js w) = (if failed_jobs E js w = [] then 0 else 2)"
proof -
  obtain n w1 where r: "run_jobs E js (0, w) = (n, w1)"
    by (cases "run_jobs E js (0, w)")
  have "n = int (length (failed_jobs E js w))"
    using run_jobs_count [of E js 0 w] r by simp
  then show ?thesis
    by (simp add: main_on_def report_def r)
qed

text \<open>
  C4. For every run, over the static list of jobs as over any other list, the exit status
  is 0 when no job failed and 2 when one or more failed, and in the second case the last
  thing the run does is to print, on the error stream, the summary with the exact number
  of failed jobs; when exactly two jobs failed, the status is 2 and the summary says 2.
\<close>

theorem exit_status:
  "main E w = main_on E (jobs E) w
   \<and> fst (main E w) = (if failed_jobs E (jobs E) w = [] then 0 else 2)
   \<and> fst (main_on E js w) = (if failed_jobs E js w = [] then 0 else 2)
   \<and> (failed_jobs E js w \<noteq> [] \<longrightarrow>
        stderr (snd (main_on E js w))
          = stderr (snd (run_jobs E js (0, w)))
              @ [''Conclu'' @ [CHR 0xED] @ ''do com ''
                   @ str_int (int (length (failed_jobs E js w))) @ '' falha(s).''])
   \<and> (length (failed_jobs E js w) = 2 \<longrightarrow>
        fst (main_on E js w) = 2
        \<and> last (stderr (snd (main_on E js w)))
            = ''Conclu'' @ [CHR 0xED] @ ''do com 2 falha(s).'')"
proof -
  obtain n w1 where r: "run_jobs E js (0, w) = (n, w1)"
    by (cases "run_jobs E js (0, w)")
  have n: "n = int (length (failed_jobs E js w))"
    using run_jobs_count [of E js 0 w] r by simp
  have two: "str_int 2 = ''2''"
    by (simp add: str_int_def str_nat.simps digit_char_def)
  have a: "main E w = main_on E (jobs E) w"
    by (simp add: main_def)
  have b: "fst (main_on E js w) = (if failed_jobs E js w = [] then 0 else 2)"
    by (rule main_on_status)
  have s: "fst (main E w) = (if failed_jobs E (jobs E) w = [] then 0 else 2)"
    unfolding main_def by (rule main_on_status)
  have c: "failed_jobs E js w \<noteq> [] \<longrightarrow>
        stderr (snd (main_on E js w))
          = stderr (snd (run_jobs E js (0, w)))
              @ [''Conclu'' @ [CHR 0xED] @ ''do com ''
                   @ str_int (int (length (failed_jobs E js w))) @ '' falha(s).'']"
    by (simp add: main_on_def report_def r n print_err_def)
  have d: "length (failed_jobs E js w) = 2 \<longrightarrow>
        fst (main_on E js w) = 2
        \<and> last (stderr (snd (main_on E js w)))
            = ''Conclu'' @ [CHR 0xED] @ ''do com 2 falha(s).''"
    by (auto simp: main_on_def report_def r n print_err_def two)
  from a s b c d show ?thesis by (intro conjI)
qed

lemma three_jobs_failed: "length (failed_jobs env404 three_jobs world0) = 2"
  by code_simp

text \<open>Three jobs of the list, two of which get a 404.\<close>

theorem exit_status_witness:
  "length (failed_jobs env404 three_jobs world0) = 2
   \<and> failed_jobs env404 three_jobs world0 \<noteq> []
   \<and> fst (main_on env404 three_jobs world0) = 2
   \<and> last (stderr (snd (main_on env404 three_jobs world0)))
       = ''Conclu'' @ [CHR 0xED] @ ''do com 2 falha(s).''"
proof -
  have n: "failed_jobs env404 three_jobs world0 \<noteq> []"
    using three_jobs_failed by auto
  note t = exit_status [of env404 world0 three_jobs, THEN conjunct2, THEN conjunct2,
      THEN conjunct2, THEN conjunct2, rule_format, OF three_jobs_failed]
  from three_jobs_failed n t show ?thesis
    by (intro conjI) simp_all
qed

end
